theory Spec2Isabelle
  imports Main "HOL-Library.Word"
begin

unbundle bit_operations_syntax

section \<open>Machine words and local memory\<close>

text \<open>
  The two kernels work on \<open>uint32_t\<close> and \<open>uint8_t\<close> values and on tiles reached
  through \<open>uint32_t*\<close> pointers. Local memory is a store of 32-bit words addressed by
  word index; a pointer is the index of its first word, so \<open>p[k]\<close> is the word at
  \<open>p + k\<close>. Two pointers alias exactly when they are the same index, and a store through
  one pointer is seen by a later load through the other.

  The loop counters \<open>i\<close> and \<open>j\<close> are \<open>uint32_t\<close> in the source. With
  \<open>i < tile_size / 32\<close> and \<open>j < 32\<close> the index expressions \<open>i * 5 + j / 8 + 1\<close> and
  \<open>i * 32 + j\<close> stay below \<open>2 ^ 32\<close>, so they are written over \<open>nat\<close>. The constant
  \<open>MXFP4_BLOCK_SIZE\<close> is 32 in both files and is written as the number.
\<close>

type_synonym u8 = "8 word"
type_synonym u32 = "32 word"
type_synonym memory = "nat \<Rightarrow> u32"

section \<open>The block codec\<close>

subsection \<open>Index expressions shared by both directions\<close>

text \<open>\<open>uint32_t byte_idx = (i * 5) + (j / 8) + 1;\<close> and \<open>uint32_t nibble_idx = j % 8;\<close>\<close>

definition byte_idx :: "nat \<Rightarrow> nat \<Rightarrow> nat" where
  "byte_idx i j = (i * 5) + (j div 8) + 1"

definition nibble_idx :: "nat \<Rightarrow> nat" where
  "nibble_idx j = j mod 8"

subsection \<open>Decoding: \<open>convert_mxfp4_to_fp32_tile\<close> (reader kernel)\<close>

text \<open>\<open>uint8_t shared_exp = (mxfp4_tile[i * 5] >> 24) & 0xFF;\<close>\<close>

definition shared_exp_of :: "u32 \<Rightarrow> u8" where
  "shared_exp_of w = ucast (drop_bit 24 w AND 0xFF)"

text \<open>\<open>uint8_t mxfp4_val = (mxfp4_tile[byte_idx] >> (nibble_idx * 4)) & 0x0F;\<close>\<close>

definition extract_nibble :: "u32 \<Rightarrow> nat \<Rightarrow> u8" where
  "extract_nibble w k = ucast (drop_bit (k * 4) w AND 0x0F)"

text \<open>
  The word stored for one element: \<open>0\<close> when the magnitude is zero, otherwise
  \<open>((uint32_t)shared_exp << 23) | ((uint32_t)mxfp4_val << 19)\<close>.
\<close>

definition reconstruct_fp32 :: "u8 \<Rightarrow> u8 \<Rightarrow> u32" where
  "reconstruct_fp32 shared_exp mxfp4_val =
     (if mxfp4_val = 0 then 0
      else push_bit 23 (ucast shared_exp) OR push_bit 19 (ucast mxfp4_val))"

text \<open>The body of the inner loop, for element \<open>j\<close> of block \<open>i\<close>.\<close>

definition decode_element :: "nat \<Rightarrow> nat \<Rightarrow> u8 \<Rightarrow> nat \<Rightarrow> nat \<Rightarrow> memory \<Rightarrow> memory" where
  "decode_element mxfp4_tile fp32_tile shared_exp i j m =
     (let mxfp4_val = extract_nibble (m (mxfp4_tile + byte_idx i j)) (nibble_idx j)
      in m(fp32_tile + (i * 32 + j) := reconstruct_fp32 shared_exp mxfp4_val))"

text \<open>
  The body of the outer loop: the shared exponent is read once, into a local, and the
  inner loop runs \<open>j = 0, ..., 31\<close>.
\<close>

definition decode_block :: "nat \<Rightarrow> nat \<Rightarrow> nat \<Rightarrow> memory \<Rightarrow> memory" where
  "decode_block mxfp4_tile fp32_tile i m =
     (let shared_exp = shared_exp_of (m (mxfp4_tile + i * 5))
      in fold (decode_element mxfp4_tile fp32_tile shared_exp i) [0..<32] m)"

definition convert_mxfp4_to_fp32_tile :: "nat \<Rightarrow> nat \<Rightarrow> u32 \<Rightarrow> memory \<Rightarrow> memory" where
  "convert_mxfp4_to_fp32_tile mxfp4_tile fp32_tile tile_size m =
     fold (decode_block mxfp4_tile fp32_tile) [0..<unat (tile_size div 32)] m"

subsection \<open>Encoding: \<open>convert_fp32_to_mxfp4_tile\<close> (writer kernel)\<close>

text \<open>\<open>uint8_t exp = (fp32_val >> 23) & 0xFF;\<close>\<close>

definition exp_field :: "u32 \<Rightarrow> u8" where
  "exp_field fp32_val = ucast (drop_bit 23 fp32_val AND 0xFF)"

text \<open>\<open>uint32_t mantissa = (fp32_val & 0x7FFFFF) >> 19;\<close>\<close>

definition mantissa_top4 :: "u32 \<Rightarrow> u32" where
  "mantissa_top4 fp32_val = drop_bit 19 (fp32_val AND 0x7FFFFF)"

text \<open>The first inner loop: the running maximum of the exponents of the nonzero words.\<close>

definition max_exp_step :: "memory \<Rightarrow> nat \<Rightarrow> nat \<Rightarrow> nat \<Rightarrow> u8 \<Rightarrow> u8" where
  "max_exp_step m fp32_tile i j max_exp =
     (let fp32_val = m (fp32_tile + (i * 32 + j))
      in if fp32_val \<noteq> 0
         then (let exp = exp_field fp32_val in if exp > max_exp then exp else max_exp)
         else max_exp)"

definition find_max_exp :: "memory \<Rightarrow> nat \<Rightarrow> nat \<Rightarrow> u8" where
  "find_max_exp m fp32_tile i = fold (max_exp_step m fp32_tile i) [0..<32] 0"

text \<open>
  The magnitude computed for one word (\<open>mxfp4_val\<close>, a \<open>uint8_t\<close> that starts at 0).
  \<open>int exp_diff = max_exp - exp;\<close> is a signed subtraction of the two promoted bytes.
\<close>

definition quantize :: "u8 \<Rightarrow> u32 \<Rightarrow> u8" where
  "quantize max_exp fp32_val =
     (if fp32_val \<noteq> 0
      then (let mantissa = mantissa_top4 fp32_val;
                exp = exp_field fp32_val;
                exp_diff = uint max_exp - uint exp
            in if exp_diff \<ge> 0 \<and> exp_diff < 16
               then ucast (drop_bit (nat exp_diff) mantissa)
               else 0)
      else 0)"

text \<open>
  The body of the second inner loop: the word is read from the tile as it is now, and the
  magnitude is ORed into \<open>mxfp4_tile[byte_idx]\<close>.
\<close>

definition encode_element :: "nat \<Rightarrow> nat \<Rightarrow> u8 \<Rightarrow> nat \<Rightarrow> nat \<Rightarrow> memory \<Rightarrow> memory" where
  "encode_element fp32_tile mxfp4_tile max_exp i j m =
     (let fp32_val = m (fp32_tile + (i * 32 + j));
          mxfp4_val = quantize max_exp fp32_val;
          a = mxfp4_tile + byte_idx i j
      in m(a := m a OR push_bit (nibble_idx j * 4) (ucast mxfp4_val)))"

definition encode_block :: "nat \<Rightarrow> nat \<Rightarrow> nat \<Rightarrow> memory \<Rightarrow> memory" where
  "encode_block fp32_tile mxfp4_tile i m =
     (let max_exp = find_max_exp m fp32_tile i;
          m1 = m(mxfp4_tile + i * 5 := push_bit 24 (ucast max_exp))
      in fold (encode_element fp32_tile mxfp4_tile max_exp i) [0..<32] m1)"

definition convert_fp32_to_mxfp4_tile :: "nat \<Rightarrow> nat \<Rightarrow> u32 \<Rightarrow> memory \<Rightarrow> memory" where
  "convert_fp32_to_mxfp4_tile fp32_tile mxfp4_tile tile_size m =
     fold (encode_block fp32_tile mxfp4_tile) [0..<unat (tile_size div 32)] m"

subsection \<open>Where the two directions read and write\<close>

text \<open>
  Block \<open>i\<close> of a compact tile at \<open>p\<close> is the five words \<open>p[i * 5], ..., p[i * 5 + 4]\<close>;
  block \<open>i\<close> of a full-precision tile at \<open>p\<close> is the 32 words from \<open>p[i * 32]\<close>. Two
  buffers are apart when one ends before the other starts.
\<close>

definition compact_block :: "nat \<Rightarrow> nat \<Rightarrow> nat set" where
  "compact_block p i = {p + i * 5 ..< p + i * 5 + 5}"

definition full_block :: "nat \<Rightarrow> nat \<Rightarrow> nat set" where
  "full_block p i = {p + i * 32 ..< p + i * 32 + 32}"

definition apart :: "nat \<Rightarrow> nat \<Rightarrow> nat \<Rightarrow> nat \<Rightarrow> bool" where
  "apart p n q l \<longleftrightarrow> p + n \<le> q \<or> q + l \<le> p"

section \<open>The writer's scratch buffer\<close>

text \<open>\<open>uint32_t mxfp4_buffer[tile_elements / 6];\<close> (the length of the array, in words).\<close>

definition mxfp4_buffer_words :: "u32 \<Rightarrow> u32" where
  "mxfp4_buffer_words tile_elements = tile_elements div 6"

section \<open>The reader kernel\<close>

text \<open>
  \<open>kernel_main\<close> of \<open>reader_bmm_tile_layout.cpp\<close> talks to its collaborators (the circular
  buffers, the transfer engine) through calls only, so the kernel is modelled by the
  sequence of those calls, in program order, with their arguments. A call of
  \<open>convert_mxfp4_to_fp32_tile\<close> is an event too: what it does to memory is the function of
  that name above, and when it runs relative to the transfers is what the trace shows.
\<close>

text \<open>The runtime arguments 0 to 22, by the names of the locals they are loaded into.\<close>

record reader_args =
  in0_tensor_addr :: u32
  in0_tensor_start_tile_id :: u32
  in0_tensor_stride_w :: u32
  in0_tensor_stride_h :: u32
  in0_tensor_next_block_stride :: u32
  in0_block_w :: u32
  in0_block_h :: u32
  in0_block_num_tiles :: u32
  in1_tensor_addr :: u32
  in1_tensor_start_tile_id :: u32
  in1_tensor_stride_w :: u32
  in1_tensor_stride_h :: u32
  in1_tensor_next_block_stride :: u32
  in1_block_w :: u32
  in1_block_h :: u32
  in1_block_num_tiles :: u32
  num_blocks :: u32
  MtKt :: u32
  KtNt :: u32
  batch :: u32
  bcast_B :: u32
  in0_is_mxfp4 :: u32
  in1_is_mxfp4 :: u32

text \<open>
  What the kernel asks of \<open>dataflow_api.h\<close>, which is not part of the sources: the tile
  size of each circular buffer (\<open>get_tile_size\<close>) and the write pointer of each circular
  buffer (\<open>get_write_ptr\<close>), which the kernel reads once per block and which is given here
  as a function of the number of blocks pushed before.
\<close>

record reader_env =
  in0_single_tile_size_bytes :: u32
  in1_single_tile_size_bytes :: u32
  get_write_ptr_in0 :: "nat \<Rightarrow> u32"
  get_write_ptr_in1 :: "nat \<Rightarrow> u32"

datatype operand = In0 | In1

abbreviation (input) cb_id_in0 :: u32 where "cb_id_in0 \<equiv> 0"
abbreviation (input) cb_id_in1 :: u32 where "cb_id_in1 \<equiv> 1"

text \<open>
  \<open>NocAsyncReadTile opnd tile_id l1_addr\<close> is \<open>noc_async_read_tile(tile_id, s, l1_addr)\<close>
  with the accessor of that operand; \<open>ConvertMxfp4ToFp32 p q n\<close> is the call
  \<open>convert_mxfp4_to_fp32_tile(p, q, n)\<close>.
\<close>

datatype reader_event =
    CbReserveBack u32 u32
  | NocAsyncReadTile operand u32 u32
  | ConvertMxfp4ToFp32 u32 u32 u32
  | NocAsyncReadBarrier
  | CbPushBack u32 u32

text \<open>
  The code for the two operands is the same text with \<open>in0\<close> replaced by \<open>in1\<close>, so the
  loops over one block are written once, with the operand's values as parameters. The
  state of the innermost loop is the write address, the tile index and the trace so far;
  its counter \<open>w\<close> is not used in the body, so the loop is the body iterated
  \<open>block_w\<close> times. All additions are on \<open>uint32_t\<close> and wrap.
\<close>

definition read_tile_step ::
  "operand \<Rightarrow> u32 \<Rightarrow> u32 \<Rightarrow> u32 \<Rightarrow> u32 \<times> u32 \<times> reader_event list \<Rightarrow> u32 \<times> u32 \<times> reader_event list" where
  "read_tile_step opnd is_mxfp4 single_tile_size_bytes stride_w =
     (\<lambda>(l1_write_addr, tensor_tile_id, tr).
        (l1_write_addr + single_tile_size_bytes,
         tensor_tile_id + stride_w,
         tr @ [NocAsyncReadTile opnd tensor_tile_id l1_write_addr]
            @ (if is_mxfp4 \<noteq> 0
               then [ConvertMxfp4ToFp32 l1_write_addr l1_write_addr (single_tile_size_bytes div 4)]
               else [])))"

text \<open>The loop over \<open>h\<close>: the state is the write address, the row's first tile index, the trace.\<close>

definition read_row_step ::
  "operand \<Rightarrow> u32 \<Rightarrow> u32 \<Rightarrow> u32 \<Rightarrow> u32 \<Rightarrow> u32 \<Rightarrow> u32 \<times> u32 \<times> reader_event list \<Rightarrow> u32 \<times> u32 \<times> reader_event list" where
  "read_row_step opnd is_mxfp4 single_tile_size_bytes stride_w stride_h block_w =
     (\<lambda>(l1_write_addr, tensor_row_start_tile_id, tr).
        case (read_tile_step opnd is_mxfp4 single_tile_size_bytes stride_w ^^ unat block_w)
               (l1_write_addr, tensor_row_start_tile_id, tr) of
          (l1_write_addr', _, tr') \<Rightarrow> (l1_write_addr', tensor_row_start_tile_id + stride_h, tr'))"

definition read_block_in0 :: "reader_args \<Rightarrow> reader_env \<Rightarrow> u32 \<Rightarrow> u32 \<Rightarrow> reader_event list \<Rightarrow> reader_event list" where
  "read_block_in0 args env l1_write_addr_in0 current_block_start_tile_id tr =
     snd (snd ((read_row_step In0 (in0_is_mxfp4 args) (in0_single_tile_size_bytes env)
                  (in0_tensor_stride_w args) (in0_tensor_stride_h args) (in0_block_w args)
                ^^ unat (in0_block_h args))
               (l1_write_addr_in0, current_block_start_tile_id, tr)))"

definition read_block_in1 :: "reader_args \<Rightarrow> reader_env \<Rightarrow> u32 \<Rightarrow> u32 \<Rightarrow> reader_event list \<Rightarrow> reader_event list" where
  "read_block_in1 args env l1_write_addr_in1 current_block_start_tile_id tr =
     snd (snd ((read_row_step In1 (in1_is_mxfp4 args) (in1_single_tile_size_bytes env)
                  (in1_tensor_stride_w args) (in1_tensor_stride_h args) (in1_block_w args)
                ^^ unat (in1_block_h args))
               (l1_write_addr_in1, current_block_start_tile_id, tr)))"

text \<open>
  The loop over \<open>block\<close>. Its state: the number of blocks pushed so far, the two
  \<open>current_block_start_tile_id\<close>s, and the trace.
\<close>

definition reader_block_step ::
  "reader_args \<Rightarrow> reader_env \<Rightarrow> nat \<times> u32 \<times> u32 \<times> reader_event list \<Rightarrow> nat \<times> u32 \<times> u32 \<times> reader_event list" where
  "reader_block_step args env =
     (\<lambda>(pushed, in0_current, in1_current, tr).
        let tr1 = tr @ [CbReserveBack cb_id_in0 (in0_block_num_tiles args),
                        CbReserveBack cb_id_in1 (in1_block_num_tiles args)];
            l1_write_addr_in0 = get_write_ptr_in0 env pushed;
            l1_write_addr_in1 = get_write_ptr_in1 env pushed;
            tr2 = read_block_in0 args env l1_write_addr_in0 in0_current tr1;
            in0_current' = in0_current + in0_tensor_next_block_stride args;
            tr3 = read_block_in1 args env l1_write_addr_in1 in1_current tr2;
            in1_current' = in1_current + in1_tensor_next_block_stride args;
            tr4 = tr3 @ [NocAsyncReadBarrier,
                         CbPushBack cb_id_in0 (in0_block_num_tiles args),
                         CbPushBack cb_id_in1 (in1_block_num_tiles args)]
        in (Suc pushed, in0_current', in1_current', tr4))"

text \<open>
  The loop over \<open>b\<close>. Its state: the number of blocks pushed so far, the two
  \<open>tensor_start_tile_id\<close>s, and the trace.
\<close>

definition reader_batch_step ::
  "reader_args \<Rightarrow> reader_env \<Rightarrow> nat \<times> u32 \<times> u32 \<times> reader_event list \<Rightarrow> nat \<times> u32 \<times> u32 \<times> reader_event list" where
  "reader_batch_step args env =
     (\<lambda>(pushed, in0_start, in1_start, tr).
        case (reader_block_step args env ^^ unat (num_blocks args))
               (pushed, in0_start, in1_start, tr) of
          (pushed', _, _, tr') \<Rightarrow>
            (pushed',
             in0_start + MtKt args,
             (if bcast_B args = 0 then in1_start + KtNt args else in1_start),
             tr'))"

text \<open>The state after \<open>n\<close> rounds of the loop over \<open>b\<close>, and the kernel.\<close>

definition reader_batches ::
  "reader_args \<Rightarrow> reader_env \<Rightarrow> nat \<Rightarrow> nat \<times> u32 \<times> u32 \<times> reader_event list" where
  "reader_batches args env n =
     (reader_batch_step args env ^^ n)
       (0, in0_tensor_start_tile_id args, in1_tensor_start_tile_id args, [])"

definition reader_kernel_main :: "reader_args \<Rightarrow> reader_env \<Rightarrow> reader_event list" where
  "reader_kernel_main args env = snd (snd (snd (reader_batches args env (unat (batch args)))))"

text \<open>The tile indices of the transfers issued for one operand, in order.\<close>

fun read_tile_ids :: "operand \<Rightarrow> reader_event list \<Rightarrow> u32 list" where
  "read_tile_ids opnd [] = []"
| "read_tile_ids opnd (NocAsyncReadTile opnd' tile_id l1_addr # tr) =
     (if opnd' = opnd then tile_id # read_tile_ids opnd tr else read_tile_ids opnd tr)"
| "read_tile_ids opnd (_ # tr) = read_tile_ids opnd tr"

text \<open>
  Modelled from the spec: the transfer engine is not part of the sources. A barrier
  returns when every transfer issued since the previous barrier has completed, and nothing
  else is known to have completed. \<open>decodes_after_completion pending tr\<close> says that no
  conversion in \<open>tr\<close> reads a tile whose transfer is among \<open>pending\<close> or was issued in
  \<open>tr\<close> with no barrier since.
\<close>

fun decodes_after_completion :: "u32 list \<Rightarrow> reader_event list \<Rightarrow> bool" where
  "decodes_after_completion pending [] = True"
| "decodes_after_completion pending (NocAsyncReadTile opnd tile_id l1_addr # tr) =
     decodes_after_completion (l1_addr # pending) tr"
| "decodes_after_completion pending (NocAsyncReadBarrier # tr) =
     decodes_after_completion [] tr"
| "decodes_after_completion pending (ConvertMxfp4ToFp32 mxfp4_tile fp32_tile n # tr) =
     (mxfp4_tile \<notin> set pending \<and> decodes_after_completion pending tr)"
| "decodes_after_completion pending (_ # tr) = decodes_after_completion pending tr"

text \<open>
  A trace in which some conversion directly follows the issue of the transfer into the
  tile it converts.
\<close>

definition early_decode :: "reader_event list \<Rightarrow> bool" where
  "early_decode tr \<longleftrightarrow>
     (\<exists>xs opnd tile_id l1_addr n ys.
        tr = xs @ NocAsyncReadTile opnd tile_id l1_addr # ConvertMxfp4ToFp32 l1_addr l1_addr n # ys)"

section \<open>The writer kernel\<close>

text \<open>
  The runtime arguments 0 to 13 of \<open>writer_bmm_tile_layout.cpp\<close>. Its \<open>batch\<close> is
  \<open>out_batch\<close> here, the name being taken by the reader's.
\<close>

record writer_args =
  out_tensor_addr :: u32
  out_tensor_start_tile_id :: u32
  out_tensor_stride_w :: u32
  out_tensor_stride_h :: u32
  out_tensor_next_subblock_stride_w :: u32
  out_tensor_next_subblock_stride_h :: u32
  out_subblock_w :: u32
  out_subblock_h :: u32
  out_subblock_tile_count :: u32
  out_num_subblocks_w :: u32
  out_num_subblocks_h :: u32
  MtNt :: u32
  out_batch :: u32
  out_is_mxfp4 :: u32

text \<open>
  From outside the sources: the tile size of the output circular buffer, its read pointer
  (read once per subblock, given as a function of the number of subblocks popped before),
  and the place of the array \<open>mxfp4_buffer\<close>, as a word index.
\<close>

record writer_env =
  single_tile_size_bytes :: u32
  get_read_ptr_out0 :: "nat \<Rightarrow> u32"
  mxfp4_buffer :: nat

abbreviation (input) cb_id_out0 :: u32 where "cb_id_out0 \<equiv> 16"

text \<open>
  \<open>NocAsyncWrite a b c d\<close> is the call \<open>noc_async_write(a, b, c, d)\<close> and
  \<open>NocAsyncWriteTile tile_id l1_addr\<close> is \<open>noc_async_write_tile(tile_id, s, l1_addr)\<close>.
\<close>

datatype writer_event =
    CbWaitFront u32 u32
  | NocAsyncWrite u32 u32 u32 u32
  | NocAsyncWriteTile u32 u32
  | NocAsyncWriteBarrier
  | CbPopFront u32 u32

text \<open>\<open>(uint32_t*)l1_read_addr\<close>: the word a byte address points to.\<close>

definition word_index :: "u32 \<Rightarrow> nat" where
  "word_index byte_addr = unat byte_addr div 4"

text \<open>
  The writer calls the encoder, which changes memory, so its loops carry the memory along
  with the read address, the tile index and the trace. \<open>s.address\<close> is the address the
  accessor was made from.
\<close>

definition write_tile_step ::
  "writer_args \<Rightarrow> writer_env \<Rightarrow> memory \<times> u32 \<times> u32 \<times> writer_event list \<Rightarrow> memory \<times> u32 \<times> u32 \<times> writer_event list" where
  "write_tile_step args env =
     (\<lambda>(m, l1_read_addr, out_tensor_tile_id, tr).
        let (m', tr') =
              (if out_is_mxfp4 args \<noteq> 0
               then (let tile_ptr = word_index l1_read_addr;
                         tile_elements = single_tile_size_bytes env div 4;
                         m1 = convert_fp32_to_mxfp4_tile tile_ptr (mxfp4_buffer env) tile_elements m;
                         mxfp4_size = (tile_elements div 32) * 5 * 4
                     in (m1, tr @ [NocAsyncWrite out_tensor_tile_id (out_tensor_addr args)
                                     l1_read_addr mxfp4_size]))
               else (m, tr @ [NocAsyncWriteTile out_tensor_tile_id l1_read_addr]))
        in (m', l1_read_addr + single_tile_size_bytes env,
            out_tensor_tile_id + out_tensor_stride_w args, tr'))"

definition write_row_step ::
  "writer_args \<Rightarrow> writer_env \<Rightarrow> memory \<times> u32 \<times> u32 \<times> writer_event list \<Rightarrow> memory \<times> u32 \<times> u32 \<times> writer_event list" where
  "write_row_step args env =
     (\<lambda>(m, l1_read_addr, sb_row_start_tile_id, tr).
        case (write_tile_step args env ^^ unat (out_subblock_w args))
               (m, l1_read_addr, sb_row_start_tile_id, tr) of
          (m', l1_read_addr', _, tr') \<Rightarrow>
            (m', l1_read_addr', sb_row_start_tile_id + out_tensor_stride_h args, tr'))"

text \<open>
  The loop over \<open>sbw\<close>. Its state: the memory, the number of subblocks popped so far,
  \<open>out_tensor_sbw_start_tile_id\<close> and the trace.
\<close>

definition write_subblock_step ::
  "writer_args \<Rightarrow> writer_env \<Rightarrow> memory \<times> nat \<times> u32 \<times> writer_event list \<Rightarrow> memory \<times> nat \<times> u32 \<times> writer_event list" where
  "write_subblock_step args env =
     (\<lambda>(m, popped, sbw_start_tile_id, tr).
        let tr1 = tr @ [CbWaitFront cb_id_out0 (out_subblock_tile_count args)];
            l1_read_addr = get_read_ptr_out0 env popped
        in case (write_row_step args env ^^ unat (out_subblock_h args))
                  (m, l1_read_addr, sbw_start_tile_id, tr1) of
             (m', _, _, tr2) \<Rightarrow>
               (m', Suc popped,
                sbw_start_tile_id + out_tensor_next_subblock_stride_w args,
                tr2 @ [NocAsyncWriteBarrier, CbPopFront cb_id_out0 (out_subblock_tile_count args)]))"

definition write_sbh_step ::
  "writer_args \<Rightarrow> writer_env \<Rightarrow> memory \<times> nat \<times> u32 \<times> writer_event list \<Rightarrow> memory \<times> nat \<times> u32 \<times> writer_event list" where
  "write_sbh_step args env =
     (\<lambda>(m, popped, sbh_start_tile_id, tr).
        case (write_subblock_step args env ^^ unat (out_num_subblocks_w args))
               (m, popped, sbh_start_tile_id, tr) of
          (m', popped', _, tr') \<Rightarrow>
            (m', popped', sbh_start_tile_id + out_tensor_next_subblock_stride_h args, tr'))"

definition writer_batch_step ::
  "writer_args \<Rightarrow> writer_env \<Rightarrow> memory \<times> nat \<times> u32 \<times> writer_event list \<Rightarrow> memory \<times> nat \<times> u32 \<times> writer_event list" where
  "writer_batch_step args env =
     (\<lambda>(m, popped, start_tile_id, tr).
        case (write_sbh_step args env ^^ unat (out_num_subblocks_h args))
               (m, popped, start_tile_id, tr) of
          (m', popped', _, tr') \<Rightarrow> (m', popped', start_tile_id + MtNt args, tr'))"

text \<open>The kernel: the memory it leaves and the calls it made.\<close>

definition writer_kernel_main :: "writer_args \<Rightarrow> writer_env \<Rightarrow> memory \<Rightarrow> memory \<times> writer_event list" where
  "writer_kernel_main args env m =
     (case (writer_batch_step args env ^^ unat (out_batch args))
             (m, 0, out_tensor_start_tile_id args, []) of
        (m', _, _, tr) \<Rightarrow> (m', tr))"

fun write_tile_ids :: "writer_event list \<Rightarrow> u32 list" where
  "write_tile_ids [] = []"
| "write_tile_ids (NocAsyncWrite tile_id addr l1_addr size_bytes # tr) = tile_id # write_tile_ids tr"
| "write_tile_ids (NocAsyncWriteTile tile_id l1_addr # tr) = tile_id # write_tile_ids tr"
| "write_tile_ids (_ # tr) = write_tile_ids tr"

text \<open>
  Modelled from the spec: the transfer primitive is not part of the sources. A write of
  \<open>size_bytes\<close> bytes from the local address \<open>l1_addr\<close> carries the words found there.
\<close>

definition payload :: "memory \<Rightarrow> u32 \<Rightarrow> u32 \<Rightarrow> u32 list" where
  "payload m l1_addr size_bytes = map (\<lambda>k. m (word_index l1_addr + k)) [0..<unat size_bytes div 4]"

section \<open>The traversal, as the tile indices it should visit\<close>

text \<open>
  The indices of one block, row by row: \<open>block_start + h * stride_h + w * stride_w\<close> for
  \<open>h\<close> below \<open>block_h\<close> and, within a row, \<open>w\<close> below \<open>block_w\<close>.
\<close>

definition block_tile_ids :: "u32 \<Rightarrow> u32 \<Rightarrow> u32 \<Rightarrow> nat \<Rightarrow> nat \<Rightarrow> u32 list" where
  "block_tile_ids block_start stride_w stride_h block_w block_h =
     concat (map (\<lambda>h. map (\<lambda>w. block_start + of_nat h * stride_h + of_nat w * stride_w)
                           [0..<block_w])
                 [0..<block_h])"

text \<open>
  The same list with the shape of each operand's blocks, then what one round of the loop
  over \<open>b\<close> visits from a start index, and the stride by which the second operand's start
  moves from one batch to the next.
\<close>

definition in0_block_ids :: "reader_args \<Rightarrow> u32 \<Rightarrow> u32 list" where
  "in0_block_ids args block_start =
     block_tile_ids block_start (in0_tensor_stride_w args) (in0_tensor_stride_h args)
       (unat (in0_block_w args)) (unat (in0_block_h args))"

definition in1_block_ids :: "reader_args \<Rightarrow> u32 \<Rightarrow> u32 list" where
  "in1_block_ids args block_start =
     block_tile_ids block_start (in1_tensor_stride_w args) (in1_tensor_stride_h args)
       (unat (in1_block_w args)) (unat (in1_block_h args))"

definition in0_batch_ids :: "reader_args \<Rightarrow> u32 \<Rightarrow> u32 list" where
  "in0_batch_ids args start =
     concat (map (\<lambda>blk. in0_block_ids args (start + of_nat blk * in0_tensor_next_block_stride args))
                 [0..<unat (num_blocks args)])"

definition in1_batch_ids :: "reader_args \<Rightarrow> u32 \<Rightarrow> u32 list" where
  "in1_batch_ids args start =
     concat (map (\<lambda>blk. in1_block_ids args (start + of_nat blk * in1_tensor_next_block_stride args))
                 [0..<unat (num_blocks args)])"

definition in1_batch_stride :: "reader_args \<Rightarrow> u32" where
  "in1_batch_stride args = (if bcast_B args = 0 then KtNt args else 0)"

definition out_subblock_ids :: "writer_args \<Rightarrow> u32 \<Rightarrow> u32 list" where
  "out_subblock_ids args sb_start =
     block_tile_ids sb_start (out_tensor_stride_w args) (out_tensor_stride_h args)
       (unat (out_subblock_w args)) (unat (out_subblock_h args))"

definition out_sbh_ids :: "writer_args \<Rightarrow> u32 \<Rightarrow> u32 list" where
  "out_sbh_ids args sbh_start =
     concat (map (\<lambda>sbw. out_subblock_ids args
                    (sbh_start + of_nat sbw * out_tensor_next_subblock_stride_w args))
                 [0..<unat (out_num_subblocks_w args)])"

definition out_batch_ids :: "writer_args \<Rightarrow> u32 \<Rightarrow> u32 list" where
  "out_batch_ids args start =
     concat (map (\<lambda>sbh. out_sbh_ids args (start + of_nat sbh * out_tensor_next_subblock_stride_h args))
                 [0..<unat (out_num_subblocks_h args)])"

section \<open>Sample inputs\<close>

text \<open>A memory that is zero but for one word left behind in a scratch buffer at 100.\<close>

definition dirty_scratch :: memory where
  "dirty_scratch = (\<lambda>a. if a = 101 then 0xDEADBEEF else 0)"

text \<open>
  A compact tile at 0: shared exponent 127, magnitudes 0, 1, 1 for the first three
  elements and 0 for the rest.
\<close>

definition packed_tile :: memory where
  "packed_tile = (\<lambda>a. if a = 0 then 0x7F000000 else if a = 1 then 0x00000110 else 0)"

text \<open>Full-precision words \<open>0x3F880000\<close> (exponent 127, top mantissa bits 0001) from 0 to 63.\<close>

definition ones_tile :: memory where
  "ones_tile = (\<lambda>a. if a < 64 then 0x3F880000 else 0)"

text \<open>One block of the value 1.0 (\<open>0x3F800000\<close>: exponent 127, mantissa 0).\<close>

definition unit_tile :: memory where
  "unit_tile = (\<lambda>a. if a < 32 then 0x3F800000 else 0)"

text \<open>One block with \<open>0x3FC80000\<close> (exponent 127, top mantissa bits 1001), 1.0 and zeros.\<close>

definition mixed_tile :: memory where
  "mixed_tile = (\<lambda>a. if a = 0 then 0x3FC80000 else if a = 1 then 0x3F800000 else 0)"


text \<open>
  The reader on one batch of one block of 2 by 2 tiles for each operand, the first operand
  flagged compact; the writer on one subblock of one tile of 32 elements, flagged compact,
  with the tile staged at byte address 0 and the scratch array at word 1000.
\<close>

definition example_reader_args :: reader_args where
  "example_reader_args =
     \<lparr>in0_tensor_addr = 0x10000, in0_tensor_start_tile_id = 0, in0_tensor_stride_w = 1,
      in0_tensor_stride_h = 2, in0_tensor_next_block_stride = 2,
      in0_block_w = 2, in0_block_h = 2, in0_block_num_tiles = 4,
      in1_tensor_addr = 0x20000, in1_tensor_start_tile_id = 0, in1_tensor_stride_w = 1,
      in1_tensor_stride_h = 2, in1_tensor_next_block_stride = 4,
      in1_block_w = 2, in1_block_h = 2, in1_block_num_tiles = 4,
      num_blocks = 1, MtKt = 4, KtNt = 4, batch = 1, bcast_B = 0,
      in0_is_mxfp4 = 1, in1_is_mxfp4 = 0\<rparr>"

definition example_reader_env :: reader_env where
  "example_reader_env =
     \<lparr>in0_single_tile_size_bytes = 4096, in1_single_tile_size_bytes = 4096,
      get_write_ptr_in0 = (\<lambda>pushed. 0x1000), get_write_ptr_in1 = (\<lambda>pushed. 0x5000)\<rparr>"

definition example_writer_args :: writer_args where
  "example_writer_args =
     \<lparr>out_tensor_addr = 0x30000, out_tensor_start_tile_id = 0, out_tensor_stride_w = 1,
      out_tensor_stride_h = 1, out_tensor_next_subblock_stride_w = 1,
      out_tensor_next_subblock_stride_h = 1,
      out_subblock_w = 1, out_subblock_h = 1, out_subblock_tile_count = 1,
      out_num_subblocks_w = 1, out_num_subblocks_h = 1,
      MtNt = 1, out_batch = 1, out_is_mxfp4 = 1\<rparr>"

definition example_writer_env :: writer_env where
  "example_writer_env =
     \<lparr>single_tile_size_bytes = 128, get_read_ptr_out0 = (\<lambda>popped. 0), mxfp4_buffer = 1000\<rparr>"

section \<open>Properties of the codec\<close>

subsection \<open>Bits of the fields\<close>

lemma and_0xF: "(w::'a::len word) AND 0xF = take_bit 4 w"
  by (simp add: take_bit_eq_mask mask_eq_exp_minus_1)

lemma and_0xFF: "(w::'a::len word) AND 0xFF = take_bit 8 w"
  by (simp add: take_bit_eq_mask mask_eq_exp_minus_1)

lemma and_0x7FFFFF: "(w::'a::len word) AND 0x7FFFFF = take_bit 23 w"
  by (simp add: take_bit_eq_mask mask_eq_exp_minus_1)

lemma bit_extract_nibble: "bit (extract_nibble w k) n \<longleftrightarrow> n < 4 \<and> bit w (k * 4 + n)"
  by (auto simp add: extract_nibble_def and_0xF bit_simps)

lemma bit_mantissa_top4: "bit (mantissa_top4 v) n \<longleftrightarrow> n < 4 \<and> bit v (19 + n)"
  by (auto simp add: mantissa_top4_def and_0x7FFFFF bit_simps)

lemma bit_exp_field: "bit (exp_field v) n \<longleftrightarrow> n < 8 \<and> bit v (23 + n)"
  by (auto simp add: exp_field_def and_0xFF bit_simps)

lemma bit_shared_exp_of: "bit (shared_exp_of v) n \<longleftrightarrow> n < 8 \<and> bit v (24 + n)"
  by (auto simp add: shared_exp_of_def and_0xFF bit_simps)

lemma bit_quantize_less: "bit (quantize e v) n \<Longrightarrow> n < 4"
  by (auto simp add: quantize_def Let_def bit_simps bit_mantissa_top4 split: if_splits)

subsection \<open>Loops over memory\<close>

lemma fold_upt_frame:
  assumes "\<And>i m. i < n \<Longrightarrow> a \<notin> W i \<Longrightarrow> f i m a = m a"
  shows "(\<forall>i<n. a \<notin> W i) \<Longrightarrow> fold f [0..<n] m a = m a"
  using assms by (induction n) simp_all

lemma fold_upt_agree:
  assumes "\<And>j m m'. j < n \<Longrightarrow> (\<forall>a\<in>A. m a = m' a) \<Longrightarrow> (\<forall>a\<in>A. f j m a = f j m' a)"
  shows "(\<forall>a\<in>A. m a = m' a) \<Longrightarrow> (\<forall>a\<in>A. fold f [0..<n] m a = fold f [0..<n] m' a)"
  using assms by (induction n) simp_all

lemma fold_upt_local:
  assumes frame: "\<And>i m a. i < n \<Longrightarrow> a \<notin> W i \<Longrightarrow> f i m a = m a"
    and cong: "\<And>i m m'. i < n \<Longrightarrow> (\<forall>a\<in>A i. m a = m' a) \<Longrightarrow> (\<forall>a\<in>W i. f i m a = f i m' a)"
    and sub: "\<And>i. i < n \<Longrightarrow> W i \<subseteq> A i"
    and sep: "\<And>i j. i < j \<Longrightarrow> j < n \<Longrightarrow> A j \<inter> W i = {}"
  shows "k \<le> n \<Longrightarrow> i < k \<Longrightarrow> a \<in> W i \<Longrightarrow> fold f [0..<k] m a = f i m a"
proof (induction k)
  case 0
  then show ?case by simp
next
  case (Suc k)
  let ?M = "fold f [0..<k] m"
  have k: "k < n" using Suc.prems by simp
  show ?case
  proof (cases "i = k")
    case True
    have "\<forall>b\<in>A k. ?M b = m b"
    proof
      fix b assume b: "b \<in> A k"
      have "\<forall>j<k. b \<notin> W j" using sep [OF _ k] b by blast
      then show "?M b = m b"
        using frame k by (intro fold_upt_frame [where W = W]) simp_all
    qed
    from cong [OF k this] Suc.prems True show ?thesis by simp
  next
    case False
    then have i: "i < k" using Suc.prems by simp
    have "a \<notin> W k" using sep [OF i k] sub [OF k] Suc.prems(3) by blast
    then have "f k ?M a = ?M a" by (rule frame [OF k])
    with Suc.IH i Suc.prems show ?thesis by simp
  qed
qed

subsection \<open>Footprints of the encoder\<close>

lemma byte_idx_bounds: "j < 32 \<Longrightarrow> i * 5 + 1 \<le> byte_idx i j \<and> byte_idx i j \<le> i * 5 + 4"
  by (auto simp add: byte_idx_def)

lemma byte_idx_in_compact: "j < 32 \<Longrightarrow> p + byte_idx i j \<in> compact_block p i"
  using byte_idx_bounds [of j i] by (simp add: compact_block_def)

lemma exp_word_in_compact: "p + i * 5 \<in> compact_block p i"
  by (simp add: compact_block_def)

lemma elem_in_full: "j < 32 \<Longrightarrow> p + (i * 32 + j) \<in> full_block p i"
  by (simp add: full_block_def)

lemma encode_element_frame:
  "a \<noteq> dst + byte_idx i j \<Longrightarrow> encode_element src dst e i j m a = m a"
  by (simp add: encode_element_def Let_def)

lemma encode_loop_frame:
  assumes "n \<le> 32" "a \<notin> compact_block dst i"
  shows "fold (encode_element src dst e i) [0..<n] m a = m a"
proof (rule fold_upt_frame [where W = "\<lambda>j. {dst + byte_idx i j}"])
  show "\<forall>j<n. a \<notin> {dst + byte_idx i j}"
    using assms byte_idx_in_compact [of _ dst i] by auto
qed (simp add: encode_element_frame)

lemma encode_block_frame:
  assumes "a \<notin> compact_block dst i"
  shows "encode_block src dst i m a = m a"
proof -
  have "a \<noteq> dst + i * 5" using assms exp_word_in_compact [of dst i] by auto
  then show ?thesis
    by (simp add: encode_block_def Let_def encode_loop_frame [OF _ assms])
qed

lemma max_exp_loop_cong:
  assumes "\<forall>j<n. m (src + (i * 32 + j)) = m' (src + (i * 32 + j))"
  shows "fold (max_exp_step m src i) [0..<n] e = fold (max_exp_step m' src i) [0..<n] e"
  using assms by (induction n) (simp_all add: max_exp_step_def)

lemma find_max_exp_cong:
  assumes "\<forall>a\<in>full_block src i. m a = m' a"
  shows "find_max_exp m src i = find_max_exp m' src i"
  unfolding find_max_exp_def
  by (rule max_exp_loop_cong) (use assms elem_in_full in blast)

lemma encode_element_agree:
  assumes "j < 32" "\<forall>a\<in>compact_block dst i \<union> full_block src i. m a = m' a"
  shows "\<forall>a\<in>compact_block dst i \<union> full_block src i.
           encode_element src dst e i j m a = encode_element src dst e i j m' a"
  using assms byte_idx_in_compact [OF assms(1), of dst i] elem_in_full [OF assms(1), of src i]
  by (simp add: encode_element_def Let_def)

lemma encode_block_agree:
  assumes "\<forall>a\<in>compact_block dst i \<union> full_block src i. m a = m' a"
  shows "\<forall>a\<in>compact_block dst i \<union> full_block src i.
           encode_block src dst i m a = encode_block src dst i m' a"
proof -
  have e: "find_max_exp m src i = find_max_exp m' src i"
    using assms by (intro find_max_exp_cong) simp
  let ?e = "find_max_exp m' src i"
  have "\<forall>a\<in>compact_block dst i \<union> full_block src i.
          (m(dst + i * 5 := push_bit 24 (ucast ?e))) a = (m'(dst + i * 5 := push_bit 24 (ucast ?e))) a"
    using assms by simp
  then have "\<forall>a\<in>compact_block dst i \<union> full_block src i.
      fold (encode_element src dst ?e i) [0..<32] (m(dst + i * 5 := push_bit 24 (ucast ?e))) a =
      fold (encode_element src dst ?e i) [0..<32] (m'(dst + i * 5 := push_bit 24 (ucast ?e))) a"
    by (rule fold_upt_agree [rotated]) (rule encode_element_agree)
  then show ?thesis by (simp add: encode_block_def Let_def e)
qed

lemma encode_tile_local:
  fixes tile_size :: u32
  defines "K \<equiv> unat (tile_size div 32)"
  assumes geom: "src = dst \<or> apart src (32 * K) dst (5 * K)"
    and i: "i < K" and a: "a \<in> compact_block dst i"
  shows "convert_fp32_to_mxfp4_tile src dst tile_size m a = encode_block src dst i m a"
  unfolding convert_fp32_to_mxfp4_tile_def K_def [symmetric]
proof (rule fold_upt_local [where W = "compact_block dst"
      and A = "\<lambda>i. compact_block dst i \<union> full_block src i" and n = K])
  show "\<And>i m a. i < K \<Longrightarrow> a \<notin> compact_block dst i \<Longrightarrow> encode_block src dst i m a = m a"
    by (rule encode_block_frame)
  show "\<And>i m m'. i < K \<Longrightarrow> \<forall>a\<in>compact_block dst i \<union> full_block src i. m a = m' a \<Longrightarrow>
          \<forall>a\<in>compact_block dst i. encode_block src dst i m a = encode_block src dst i m' a"
    using encode_block_agree by blast
  show "\<And>i j. i < j \<Longrightarrow> j < K \<Longrightarrow>
          (compact_block dst j \<union> full_block src j) \<inter> compact_block dst i = {}"
    using geom by (auto simp add: compact_block_def full_block_def apart_def)
qed (use i a in simp_all)

lemma encode_tile_frame:
  assumes "\<forall>i<unat (tile_size div 32). a \<notin> compact_block dst i"
  shows "convert_fp32_to_mxfp4_tile src dst tile_size m a = m a"
  unfolding convert_fp32_to_mxfp4_tile_def
  by (rule fold_upt_frame [where W = "compact_block dst"]) (use assms encode_block_frame in simp_all)

subsection \<open>What one encoded block holds\<close>

lemma extract_nibble_or:
  assumes "k < 8" "k' < 8" "\<And>n. bit v n \<Longrightarrow> n < 4"
  shows "extract_nibble (w OR push_bit (k * 4) (ucast (v::u8))) k' =
          (if k' = k then extract_nibble w k' OR v else extract_nibble w k')"
proof (rule bit_eqI)
  fix n
  have lt: "\<And>q. bit v q \<Longrightarrow> q < 4" by fact
  have far: "\<not> bit v (k' * 4 + n - k * 4)" if "k' \<noteq> k" "n < 4" "k * 4 \<le> k' * 4 + n"
  proof
    assume "bit v (k' * 4 + n - k * 4)"
    then have "k' * 4 + n - k * 4 < 4" by (rule lt)
    with that show False by arith
  qed
  show "bit (extract_nibble (w OR push_bit (k * 4) (ucast v)) k') n =
         bit (if k' = k then extract_nibble w k' OR v else extract_nibble w k') n"
    using assms(1,2) far by (auto simp add: bit_extract_nibble bit_simps dest: lt)
qed

lemma same_slot: "byte_idx i j = byte_idx i n \<Longrightarrow> nibble_idx j = nibble_idx n \<Longrightarrow> j = n"
  by (simp add: byte_idx_def nibble_idx_def) (metis div_mult_mod_eq)

lemma max_exp_loop_zero:
  assumes "\<forall>j<n. m (src + (i * 32 + j)) = 0"
  shows "fold (max_exp_step m src i) [0..<n] e = e"
  using assms by (induction n) (simp_all add: max_exp_step_def)

lemma quantize_zero: "quantize e 0 = 0"
  by (simp add: quantize_def)

lemma encode_loop_zero:
  assumes "\<forall>j<n. m (src + (i * 32 + j)) = 0"
  shows "fold (encode_element src dst e i) [0..<n] m = m"
  using assms by (induction n) (simp_all add: encode_element_def quantize_zero)

lemma encode_block_zero:
  assumes "\<forall>j<32. m (src + (i * 32 + j)) = 0"
  shows "encode_block src dst i m = m(dst + i * 5 := 0)"
proof -
  have e: "find_max_exp m src i = 0"
    unfolding find_max_exp_def using assms by (rule max_exp_loop_zero)
  have "\<forall>j<32. (m(dst + i * 5 := 0)) (src + (i * 32 + j)) = 0"
    using assms by simp
  then have "fold (encode_element src dst 0 i) [0..<32] (m(dst + i * 5 := 0)) = m(dst + i * 5 := 0)"
    by (rule encode_loop_zero)
  then show ?thesis by (simp add: encode_block_def e)
qed

lemma encode_loop_nibble:
  assumes sep: "compact_block dst i \<inter> full_block src i = {}" and n: "n \<le> 32" and j: "j < 32"
  shows "extract_nibble (fold (encode_element src dst e i) [0..<n] m (dst + byte_idx i j)) (nibble_idx j) =
          (if j < n
           then extract_nibble (m (dst + byte_idx i j)) (nibble_idx j) OR quantize e (m (src + (i * 32 + j)))
           else extract_nibble (m (dst + byte_idx i j)) (nibble_idx j))"
  using n
proof (induction n)
  case 0
  then show ?case by simp
next
  case (Suc n)
  define M where "M = fold (encode_element src dst e i) [0..<n] m"
  have n: "n < 32" "n \<le> 32" using Suc.prems by simp_all
  have step: "fold (encode_element src dst e i) [0..<Suc n] m = encode_element src dst e i n M"
    by (simp add: M_def)
  have IH: "extract_nibble (M (dst + byte_idx i j)) (nibble_idx j) =
          (if j < n
           then extract_nibble (m (dst + byte_idx i j)) (nibble_idx j) OR quantize e (m (src + (i * 32 + j)))
           else extract_nibble (m (dst + byte_idx i j)) (nibble_idx j))"
    unfolding M_def by (rule Suc.IH [OF n(2)])
  have "src + (i * 32 + n) \<notin> compact_block dst i"
    using sep elem_in_full [OF n(1), of src i] by blast
  then have rd: "M (src + (i * 32 + n)) = m (src + (i * 32 + n))"
    unfolding M_def using n(2) by (intro encode_loop_frame)
  have nib: "nibble_idx n < 8" "nibble_idx j < 8" by (simp_all add: nibble_idx_def)
  show ?case
  proof (cases "byte_idx i j = byte_idx i n")
    case True
    show ?thesis
    proof (cases "nibble_idx j = nibble_idx n")
      case True
      with \<open>byte_idx i j = byte_idx i n\<close> have "j = n" by (rule same_slot)
      then show ?thesis
        unfolding step using IH rd nib
        by (simp add: encode_element_def Let_def extract_nibble_or bit_quantize_less)
    next
      case False
      then have "j \<noteq> n" by auto
      then have "j < Suc n \<longleftrightarrow> j < n" by auto
      then show ?thesis
        unfolding step using IH rd nib False True
        by (simp add: encode_element_def Let_def extract_nibble_or bit_quantize_less)
    qed
  next
    case False
    then have "j \<noteq> n" by auto
    then have "j < Suc n \<longleftrightarrow> j < n" by auto
    then show ?thesis
      unfolding step using IH False by (simp add: encode_element_def Let_def)
  qed
qed

lemma exp_word_not_packed: "j < 32 \<Longrightarrow> dst + i * 5 \<noteq> dst + byte_idx i j"
  by (simp add: byte_idx_def)

lemma encode_loop_exp_word:
  "fold (encode_element src dst e i) [0..<32] m (dst + i * 5) = m (dst + i * 5)"
proof (rule fold_upt_frame [where W = "\<lambda>j. {dst + byte_idx i j}"])
  show "\<forall>j<32. dst + i * 5 \<notin> {dst + byte_idx i j}"
    using exp_word_not_packed by simp
qed (simp add: encode_element_frame)

lemma encode_block_exp_word:
  "encode_block src dst i m (dst + i * 5) = push_bit 24 (ucast (find_max_exp m src i))"
  by (simp add: encode_block_def Let_def encode_loop_exp_word)

lemma elem_not_exp_word:
  assumes sep: "compact_block dst i \<inter> full_block src i = {}" and j: "j < 32"
  shows "src + (i * 32 + j) \<noteq> dst + i * 5"
proof
  assume "src + (i * 32 + j) = dst + i * 5"
  then have "src + (i * 32 + j) \<in> compact_block dst i"
    by (simp only: exp_word_in_compact)
  moreover have "src + (i * 32 + j) \<in> full_block src i"
    using j by (rule elem_in_full)
  ultimately show False using sep by blast
qed

lemma encode_block_nibble:
  assumes sep: "compact_block dst i \<inter> full_block src i = {}" and j: "j < 32"
  shows "extract_nibble (encode_block src dst i m (dst + byte_idx i j)) (nibble_idx j) =
           extract_nibble (m (dst + byte_idx i j)) (nibble_idx j)
           OR quantize (find_max_exp m src i) (m (src + (i * 32 + j)))"
proof -
  define m1 where "m1 = m(dst + i * 5 := push_bit 24 (ucast (find_max_exp m src i)))"
  have blk: "encode_block src dst i m =
      fold (encode_element src dst (find_max_exp m src i) i) [0..<32] m1"
    by (simp add: encode_block_def Let_def m1_def)
  have 1: "m1 (dst + byte_idx i j) = m (dst + byte_idx i j)"
    using exp_word_not_packed [OF j, of dst i] by (simp add: m1_def)
  have 2: "m1 (src + (i * 32 + j)) = m (src + (i * 32 + j))"
    using elem_not_exp_word [OF sep j] by (simp add: m1_def)
  show ?thesis
    unfolding blk
    using encode_loop_nibble [OF sep _ j, where n = 32 and e = "find_max_exp m src i" and m = m1] j
    by (simp add: 1 2)
qed

subsection \<open>Footprints of the decoder\<close>

lemma decode_element_frame:
  "a \<noteq> dst + (i * 32 + j) \<Longrightarrow> decode_element src dst e i j m a = m a"
  by (simp add: decode_element_def Let_def)

lemma decode_loop_frame:
  assumes "a \<notin> full_block dst i" "n \<le> 32"
  shows "fold (decode_element src dst e i) [0..<n] m a = m a"
proof (rule fold_upt_frame [where W = "\<lambda>j. {dst + (i * 32 + j)}"])
  show "\<forall>j<n. a \<notin> {dst + (i * 32 + j)}"
    using assms elem_in_full [of _ dst i] by auto
qed (simp add: decode_element_frame)

lemma decode_block_frame:
  assumes "a \<notin> full_block dst i"
  shows "decode_block src dst i m a = m a"
  using decode_loop_frame [OF assms, of 32]
  by (simp add: decode_block_def Let_def)

lemma decode_element_agree:
  assumes "j < 32" "\<forall>a\<in>full_block dst i \<union> compact_block src i. m a = m' a"
  shows "\<forall>a\<in>full_block dst i \<union> compact_block src i.
           decode_element src dst e i j m a = decode_element src dst e i j m' a"
  using assms byte_idx_in_compact [OF assms(1), of src i]
  by (simp add: decode_element_def Let_def)

lemma decode_block_agree:
  assumes "\<forall>a\<in>full_block dst i \<union> compact_block src i. m a = m' a"
  shows "\<forall>a\<in>full_block dst i \<union> compact_block src i.
           decode_block src dst i m a = decode_block src dst i m' a"
proof -
  have e: "m (src + i * 5) = m' (src + i * 5)"
    using assms exp_word_in_compact [of src i] by simp
  have "\<forall>a\<in>full_block dst i \<union> compact_block src i.
      fold (decode_element src dst e i) [0..<32] m a =
      fold (decode_element src dst e i) [0..<32] m' a" for e
    using assms by (rule fold_upt_agree [rotated]) (rule decode_element_agree)
  then show ?thesis by (simp add: decode_block_def Let_def e)
qed

lemma decode_tile_local:
  fixes tile_size :: u32
  defines "K \<equiv> unat (tile_size div 32)"
  assumes geom: "apart src (5 * K) dst (32 * K)"
    and i: "i < K" and a: "a \<in> full_block dst i"
  shows "convert_mxfp4_to_fp32_tile src dst tile_size m a = decode_block src dst i m a"
  unfolding convert_mxfp4_to_fp32_tile_def K_def [symmetric]
proof (rule fold_upt_local [where W = "full_block dst"
      and A = "\<lambda>i. full_block dst i \<union> compact_block src i" and n = K])
  show "\<And>i m a. i < K \<Longrightarrow> a \<notin> full_block dst i \<Longrightarrow> decode_block src dst i m a = m a"
    by (rule decode_block_frame)
  show "\<And>i m m'. i < K \<Longrightarrow> \<forall>a\<in>full_block dst i \<union> compact_block src i. m a = m' a \<Longrightarrow>
          \<forall>a\<in>full_block dst i. decode_block src dst i m a = decode_block src dst i m' a"
    using decode_block_agree by blast
  show "\<And>i j. i < j \<Longrightarrow> j < K \<Longrightarrow>
          (full_block dst j \<union> compact_block src j) \<inter> full_block dst i = {}"
    using geom by (auto simp add: compact_block_def full_block_def apart_def)
qed (use i a in simp_all)

lemma decode_tile_frame:
  assumes "\<forall>i<unat (tile_size div 32). a \<notin> full_block dst i"
  shows "convert_mxfp4_to_fp32_tile src dst tile_size m a = m a"
  unfolding convert_mxfp4_to_fp32_tile_def
  by (rule fold_upt_frame [where W = "full_block dst"]) (use assms decode_block_frame in simp_all)

lemma decode_loop_elem:
  assumes sep: "compact_block src i \<inter> full_block dst i = {}" and n: "n \<le> 32" and j: "j < 32"
  shows "fold (decode_element src dst e i) [0..<n] m (dst + (i * 32 + j)) =
          (if j < n then reconstruct_fp32 e (extract_nibble (m (src + byte_idx i j)) (nibble_idx j))
           else m (dst + (i * 32 + j)))"
  using n
proof (induction n)
  case 0
  then show ?case by simp
next
  case (Suc n)
  define M where "M = fold (decode_element src dst e i) [0..<n] m"
  have n: "n < 32" "n \<le> 32" using Suc.prems by simp_all
  have step: "fold (decode_element src dst e i) [0..<Suc n] m = decode_element src dst e i n M"
    by (simp add: M_def)
  have IH: "M (dst + (i * 32 + j)) =
          (if j < n then reconstruct_fp32 e (extract_nibble (m (src + byte_idx i j)) (nibble_idx j))
           else m (dst + (i * 32 + j)))"
    unfolding M_def by (rule Suc.IH [OF n(2)])
  have "src + byte_idx i n \<notin> full_block dst i"
    using sep byte_idx_in_compact [OF n(1), of src i] by blast
  then have rd: "M (src + byte_idx i n) = m (src + byte_idx i n)"
    unfolding M_def using n(2) by (intro decode_loop_frame)
  show ?case
    unfolding step using IH rd by (auto simp add: decode_element_def Let_def)
qed

lemma decode_block_elem:
  assumes sep: "compact_block src i \<inter> full_block dst i = {}" and j: "j < 32"
  shows "decode_block src dst i m (dst + (i * 32 + j)) =
           reconstruct_fp32 (shared_exp_of (m (src + i * 5)))
             (extract_nibble (m (src + byte_idx i j)) (nibble_idx j))"
  using decode_loop_elem [OF sep _ j, where n = 32] j
  by (simp add: decode_block_def Let_def)

subsection \<open>A tile at a time\<close>

lemma encode_tile_zero_block:
  fixes tile_size :: u32
  assumes geom: "src = dst \<or> apart src (32 * unat (tile_size div 32)) dst (5 * unat (tile_size div 32))"
    and i: "i < unat (tile_size div 32)"
    and zero: "\<forall>j<32. m (src + (i * 32 + j)) = 0"
    and a: "a \<in> compact_block dst i"
  shows "convert_fp32_to_mxfp4_tile src dst tile_size m a = (m(dst + i * 5 := 0)) a"
  using encode_tile_local [OF geom i a] encode_block_zero [OF zero] by simp

lemma encode_tile_exp_word:
  fixes tile_size :: u32
  assumes geom: "src = dst \<or> apart src (32 * unat (tile_size div 32)) dst (5 * unat (tile_size div 32))"
    and i: "i < unat (tile_size div 32)"
  shows "convert_fp32_to_mxfp4_tile src dst tile_size m (dst + i * 5) =
           push_bit 24 (ucast (find_max_exp m src i))"
  using encode_tile_local [OF geom i exp_word_in_compact] by (simp add: encode_block_exp_word)

lemma apart_blocks:
  assumes "apart p (32 * K) q (5 * K)" "i < K"
  shows "compact_block q i \<inter> full_block p i = {}"
  using assms by (auto simp add: apart_def compact_block_def full_block_def)

lemma apart_blocks':
  assumes "apart q (5 * K) p (32 * K)" "i < K"
  shows "compact_block q i \<inter> full_block p i = {}"
  using assms by (auto simp add: apart_def compact_block_def full_block_def)

lemma encode_tile_nibble:
  fixes tile_size :: u32
  assumes geom: "apart src (32 * unat (tile_size div 32)) dst (5 * unat (tile_size div 32))"
    and i: "i < unat (tile_size div 32)" and j: "j < 32"
  shows "extract_nibble (convert_fp32_to_mxfp4_tile src dst tile_size m (dst + byte_idx i j)) (nibble_idx j) =
           extract_nibble (m (dst + byte_idx i j)) (nibble_idx j)
           OR quantize (find_max_exp m src i) (m (src + (i * 32 + j)))"
proof -
  have "convert_fp32_to_mxfp4_tile src dst tile_size m (dst + byte_idx i j) =
        encode_block src dst i m (dst + byte_idx i j)"
    using geom i byte_idx_in_compact [OF j] by (intro encode_tile_local) simp_all
  then show ?thesis
    by (simp add: encode_block_nibble [OF apart_blocks [OF geom i] j])
qed

lemma extract_nibble_zero: "extract_nibble 0 k = 0"
  by (simp add: extract_nibble_def)

lemma shared_exp_of_push: "shared_exp_of (push_bit 24 (ucast (e :: u8))) = e"
  by (rule bit_eqI) (auto simp add: bit_shared_exp_of bit_simps)

lemma decode_tile_elem:
  fixes tile_size :: u32
  assumes geom: "apart src (5 * unat (tile_size div 32)) dst (32 * unat (tile_size div 32))"
    and i: "i < unat (tile_size div 32)" and j: "j < 32"
  shows "convert_mxfp4_to_fp32_tile src dst tile_size m (dst + (i * 32 + j)) =
           reconstruct_fp32 (shared_exp_of (m (src + i * 5)))
             (extract_nibble (m (src + byte_idx i j)) (nibble_idx j))"
proof -
  have "convert_mxfp4_to_fp32_tile src dst tile_size m (dst + (i * 32 + j)) =
        decode_block src dst i m (dst + (i * 32 + j))"
    using geom i elem_in_full [OF j] by (intro decode_tile_local) simp_all
  then show ?thesis
    by (simp add: decode_block_elem [OF apart_blocks' [OF geom i] j])
qed

text \<open>Encoding into a clean buffer apart from the tile, then decoding into a third place.\<close>

lemma roundtrip_elem:
  fixes tile_size :: u32
  assumes enc: "apart src (32 * unat (tile_size div 32)) buf (5 * unat (tile_size div 32))"
    and dec: "apart buf (5 * unat (tile_size div 32)) dst (32 * unat (tile_size div 32))"
    and clean: "\<forall>a\<in>{buf ..< buf + 5 * unat (tile_size div 32)}. m a = 0"
    and i: "i < unat (tile_size div 32)" and j: "j < 32"
  shows "convert_mxfp4_to_fp32_tile buf dst tile_size
           (convert_fp32_to_mxfp4_tile src buf tile_size m) (dst + (i * 32 + j)) =
         reconstruct_fp32 (find_max_exp m src i)
           (quantize (find_max_exp m src i) (m (src + (i * 32 + j))))"
proof -
  let ?m1 = "convert_fp32_to_mxfp4_tile src buf tile_size m"
  have e: "?m1 (buf + i * 5) = push_bit 24 (ucast (find_max_exp m src i))"
    using enc i by (intro encode_tile_exp_word) simp_all
  have "buf + byte_idx i j \<in> {buf ..< buf + 5 * unat (tile_size div 32)}"
    using byte_idx_bounds [OF j, of i] i by simp
  with clean have "m (buf + byte_idx i j) = 0" by blast
  then have q: "extract_nibble (?m1 (buf + byte_idx i j)) (nibble_idx j) =
      quantize (find_max_exp m src i) (m (src + (i * 32 + j)))"
    by (simp add: encode_tile_nibble [OF enc i j] extract_nibble_zero)
  show ?thesis
    by (simp add: decode_tile_elem [OF dec i j] e q shared_exp_of_push)
qed

lemma max_exp_loop_same:
  assumes "\<forall>j<n. m (src + (i * 32 + j)) \<noteq> 0 \<longrightarrow> exp_field (m (src + (i * 32 + j))) = e"
  shows "fold (max_exp_step m src i) [0..<n] 0 =
          (if \<exists>j<n. m (src + (i * 32 + j)) \<noteq> 0 then e else 0)"
  using assms
proof (induction n)
  case 0
  then show ?case by simp
next
  case (Suc n)
  define cur where "cur = fold (max_exp_step m src i) [0..<n] 0"
  have step: "fold (max_exp_step m src i) [0..<Suc n] 0 = max_exp_step m src i n cur"
    by (simp add: cur_def)
  have IH: "cur = (if \<exists>j<n. m (src + (i * 32 + j)) \<noteq> 0 then e else 0)"
    unfolding cur_def using Suc by simp
  show ?case
  proof (cases "m (src + (i * 32 + n)) = 0")
    case True
    then have "(\<exists>j<Suc n. m (src + (i * 32 + j)) \<noteq> 0) \<longleftrightarrow> (\<exists>j<n. m (src + (i * 32 + j)) \<noteq> 0)"
      using less_Suc_eq by auto
    with True IH show ?thesis
      unfolding step by (simp add: max_exp_step_def)
  next
    case False
    with Suc.prems have "exp_field (m (src + (i * 32 + n))) = e" by simp
    moreover from False have "\<exists>j<Suc n. m (src + (i * 32 + j)) \<noteq> 0" by auto
    ultimately show ?thesis
      unfolding step using False IH by (auto simp add: max_exp_step_def Let_def word_gt_0)
  qed
qed

lemma quantize_same_exp:
  assumes "v \<noteq> 0" "exp_field v = e"
  shows "quantize e v = ucast (mantissa_top4 v)"
  using assms by (simp add: quantize_def Let_def)

lemma reconstruct_fields:
  assumes "q \<noteq> 0" "\<And>n. bit q n \<Longrightarrow> n < 4"
  shows "exp_field (reconstruct_fp32 e q) = e" "mantissa_top4 (reconstruct_fp32 e q) = ucast q"
proof -
  have lt: "\<And>n. bit q n \<Longrightarrow> n < 4" by fact
  have r: "reconstruct_fp32 e q = push_bit 23 (ucast e) OR push_bit 19 (ucast q)"
    using assms(1) by (simp add: reconstruct_fp32_def)
  show "exp_field (reconstruct_fp32 e q) = e"
    unfolding r by (rule bit_eqI) (auto simp add: bit_exp_field bit_simps dest: lt)
  show "mantissa_top4 (reconstruct_fp32 e q) = ucast q"
    unfolding r by (rule bit_eqI) (auto simp add: bit_mantissa_top4 bit_simps dest: lt)
qed

text \<open>The exponent the first loop finds bounds the exponent of every nonzero word of the block.\<close>

lemma max_exp_loop_upper:
  "e0 \<le> fold (max_exp_step m src i) [0..<n] e0 \<and>
   (\<forall>k<n. m (src + (i * 32 + k)) \<noteq> 0 \<longrightarrow>
      exp_field (m (src + (i * 32 + k))) \<le> fold (max_exp_step m src i) [0..<n] e0)"
proof (induction n)
  case 0
  show ?case by simp
next
  case (Suc n)
  define cur where "cur = fold (max_exp_step m src i) [0..<n] e0"
  have step: "fold (max_exp_step m src i) [0..<Suc n] e0 = max_exp_step m src i n cur"
    by (simp add: cur_def)
  have IH: "e0 \<le> cur" "\<And>k. k < n \<Longrightarrow> m (src + (i * 32 + k)) \<noteq> 0 \<Longrightarrow>
      exp_field (m (src + (i * 32 + k))) \<le> cur"
    using Suc unfolding cur_def by blast+
  have mono: "cur \<le> max_exp_step m src i n cur"
    by (simp add: max_exp_step_def Let_def less_imp_le)
  have last: "exp_field (m (src + (i * 32 + n))) \<le> max_exp_step m src i n cur"
    if "m (src + (i * 32 + n)) \<noteq> 0"
    using that by (simp add: max_exp_step_def Let_def not_less)
  have 1: "e0 \<le> max_exp_step m src i n cur"
    using IH(1) mono by (rule order_trans)
  have 2: "exp_field (m (src + (i * 32 + k))) \<le> max_exp_step m src i n cur"
    if "k < Suc n" "m (src + (i * 32 + k)) \<noteq> 0" for k
  proof (cases "k = n")
    case True
    with that(2) last show ?thesis by simp
  next
    case False
    with that(1) have "k < n" by simp
    then have "exp_field (m (src + (i * 32 + k))) \<le> cur" using that(2) by (rule IH(2))
    then show ?thesis using mono by (rule order_trans)
  qed
  from 1 2 show ?case unfolding step by blast
qed

lemma find_max_exp_upper:
  "k < 32 \<Longrightarrow> m (src + (i * 32 + k)) \<noteq> 0 \<Longrightarrow>
     exp_field (m (src + (i * 32 + k))) \<le> find_max_exp m src i"
  unfolding find_max_exp_def using max_exp_loop_upper [of 0 m src i 32] by blast


section \<open>Properties of the traversal\<close>

subsection \<open>Counted loops that advance a position\<close>

lemma funpow_advance:
  fixes pos :: "'s \<Rightarrow> u32"
  assumes "\<And>s. pos (step s) = pos s + d" and "\<And>s. ids (step s) = ids s @ g (pos s)"
  shows "pos ((step ^^ n) s) = pos s + of_nat n * d \<and>
         ids ((step ^^ n) s) = ids s @ concat (map (\<lambda>k. g (pos s + of_nat k * d)) [0..<n])"
  using assms by (induction n) (simp_all add: algebra_simps)

lemma read_tile_ids_append:
  "read_tile_ids opnd (xs @ ys) = read_tile_ids opnd xs @ read_tile_ids opnd ys"
  by (induction opnd xs rule: read_tile_ids.induct) simp_all

lemma concat_map_single: "concat (map (\<lambda>k. [f k]) xs) = map f xs"
  by (induction xs) simp_all

lemma concat_map_nil: "concat (map (\<lambda>k. []) xs) = []"
  by (induction xs) simp_all

lemma read_tile_step_ids:
  "fst (snd (read_tile_step opnd' f tsb sw s)) = fst (snd s) + sw"
  "read_tile_ids opnd (snd (snd (read_tile_step opnd' f tsb sw s))) =
     read_tile_ids opnd (snd (snd s)) @ (if opnd' = opnd then [fst (snd s)] else [])"
  by (cases s; simp add: read_tile_step_def read_tile_ids_append)+

lemma read_row_step_ids:
  "fst (snd (read_row_step opnd' f tsb sw sh bw s)) = fst (snd s) + sh"
  "read_tile_ids opnd (snd (snd (read_row_step opnd' f tsb sw sh bw s))) =
     read_tile_ids opnd (snd (snd s)) @
       (if opnd' = opnd then map (\<lambda>w. fst (snd s) + of_nat w * sw) [0..<unat bw] else [])"
proof -
  obtain l1 tid tr where s: "s = (l1, tid, tr)" by (cases s)
  obtain l1' tid' tr' where r: "(read_tile_step opnd' f tsb sw ^^ unat bw) (l1, tid, tr) = (l1', tid', tr')"
    by (cases "(read_tile_step opnd' f tsb sw ^^ unat bw) (l1, tid, tr)")
  show "fst (snd (read_row_step opnd' f tsb sw sh bw s)) = fst (snd s) + sh"
    by (simp add: read_row_step_def s r)
  have "read_tile_ids opnd (snd (snd ((read_tile_step opnd' f tsb sw ^^ unat bw) (l1, tid, tr)))) =
      read_tile_ids opnd (snd (snd (l1, tid, tr))) @
      concat (map (\<lambda>k. (if opnd' = opnd then [fst (snd (l1, tid, tr)) + of_nat k * sw] else []))
        [0..<unat bw])"
    using funpow_advance [where pos = "\<lambda>s. fst (snd s)" and step = "read_tile_step opnd' f tsb sw"
        and d = sw and ids = "\<lambda>s. read_tile_ids opnd (snd (snd s))"
        and g = "\<lambda>p. if opnd' = opnd then [p] else []" and n = "unat bw" and s = "(l1, tid, tr)"]
    by (simp add: read_tile_step_ids)
  then show "read_tile_ids opnd (snd (snd (read_row_step opnd' f tsb sw sh bw s))) =
     read_tile_ids opnd (snd (snd s)) @
       (if opnd' = opnd then map (\<lambda>w. fst (snd s) + of_nat w * sw) [0..<unat bw] else [])"
    by (simp add: read_row_step_def s r concat_map_single concat_map_nil)
qed

lemma read_rows_ids:
  "read_tile_ids opnd (snd (snd ((read_row_step opnd' f tsb sw sh bw ^^ n) (l1, start, tr)))) =
     read_tile_ids opnd tr @ (if opnd' = opnd then block_tile_ids start sw sh (unat bw) n else [])"
  using funpow_advance [where pos = "\<lambda>s. fst (snd s)" and step = "read_row_step opnd' f tsb sw sh bw"
        and d = sh and ids = "\<lambda>s. read_tile_ids opnd (snd (snd s))"
        and g = "\<lambda>p. if opnd' = opnd then map (\<lambda>w. p + of_nat w * sw) [0..<unat bw] else []"
        and n = n and s = "(l1, start, tr)"]
  by (simp add: read_row_step_ids block_tile_ids_def concat_map_nil)

lemma read_block_in0_ids:
  "read_tile_ids opnd (read_block_in0 args env l1 start tr) =
     read_tile_ids opnd tr @
       (if opnd = In0
        then block_tile_ids start (in0_tensor_stride_w args) (in0_tensor_stride_h args)
               (unat (in0_block_w args)) (unat (in0_block_h args))
        else [])"
  by (auto simp add: read_block_in0_def read_rows_ids)

lemma read_block_in1_ids:
  "read_tile_ids opnd (read_block_in1 args env l1 start tr) =
     read_tile_ids opnd tr @
       (if opnd = In1
        then block_tile_ids start (in1_tensor_stride_w args) (in1_tensor_stride_h args)
               (unat (in1_block_w args)) (unat (in1_block_h args))
        else [])"
  by (auto simp add: read_block_in1_def read_rows_ids)

lemma reader_block_step_state:
  "fst (snd (reader_block_step args env s)) = fst (snd s) + in0_tensor_next_block_stride args"
  "fst (snd (snd (reader_block_step args env s))) = fst (snd (snd s)) + in1_tensor_next_block_stride args"
  "read_tile_ids In0 (snd (snd (snd (reader_block_step args env s)))) =
     read_tile_ids In0 (snd (snd (snd s))) @ in0_block_ids args (fst (snd s))"
  "read_tile_ids In1 (snd (snd (snd (reader_block_step args env s)))) =
     read_tile_ids In1 (snd (snd (snd s))) @ in1_block_ids args (fst (snd (snd s)))"
  by (cases s; simp add: reader_block_step_def Let_def read_tile_ids_append
        read_block_in0_ids read_block_in1_ids in0_block_ids_def in1_block_ids_def)+

lemma reader_blocks_state:
  "fst (snd ((reader_block_step args env ^^ n) s)) =
     fst (snd s) + of_nat n * in0_tensor_next_block_stride args"
  "read_tile_ids In0 (snd (snd (snd ((reader_block_step args env ^^ n) s)))) =
     read_tile_ids In0 (snd (snd (snd s))) @
     concat (map (\<lambda>blk. in0_block_ids args (fst (snd s) + of_nat blk * in0_tensor_next_block_stride args))
                 [0..<n])"
  "fst (snd (snd ((reader_block_step args env ^^ n) s))) =
     fst (snd (snd s)) + of_nat n * in1_tensor_next_block_stride args"
  "read_tile_ids In1 (snd (snd (snd ((reader_block_step args env ^^ n) s)))) =
     read_tile_ids In1 (snd (snd (snd s))) @
     concat (map (\<lambda>blk. in1_block_ids args (fst (snd (snd s)) + of_nat blk * in1_tensor_next_block_stride args))
                 [0..<n])"
  using funpow_advance [where pos = "\<lambda>s. fst (snd s)" and step = "reader_block_step args env"
        and d = "in0_tensor_next_block_stride args"
        and ids = "\<lambda>s. read_tile_ids In0 (snd (snd (snd s)))"
        and g = "in0_block_ids args" and n = n and s = s]
    funpow_advance [where pos = "\<lambda>s. fst (snd (snd s))" and step = "reader_block_step args env"
        and d = "in1_tensor_next_block_stride args"
        and ids = "\<lambda>s. read_tile_ids In1 (snd (snd (snd s)))"
        and g = "in1_block_ids args" and n = n and s = s]
  by (simp_all add: reader_block_step_state)

lemma reader_batch_step_state:
  "fst (snd (reader_batch_step args env s)) = fst (snd s) + MtKt args"
  "fst (snd (snd (reader_batch_step args env s))) = fst (snd (snd s)) + in1_batch_stride args"
  "read_tile_ids In0 (snd (snd (snd (reader_batch_step args env s)))) =
     read_tile_ids In0 (snd (snd (snd s))) @ in0_batch_ids args (fst (snd s))"
  "read_tile_ids In1 (snd (snd (snd (reader_batch_step args env s)))) =
     read_tile_ids In1 (snd (snd (snd s))) @ in1_batch_ids args (fst (snd (snd s)))"
proof -
  obtain k a b tr where s: "s = (k, a, b, tr)" by (cases s)
  obtain k' a' b' tr' where
    r: "(reader_block_step args env ^^ unat (num_blocks args)) (k, a, b, tr) = (k', a', b', tr')"
    by (cases "(reader_block_step args env ^^ unat (num_blocks args)) (k, a, b, tr)")
  have step: "reader_batch_step args env s =
      (k', a + MtKt args, (if bcast_B args = 0 then b + KtNt args else b), tr')"
    by (simp add: reader_batch_step_def s r)
  have tr0: "read_tile_ids In0 tr' = read_tile_ids In0 tr @ in0_batch_ids args a"
    using reader_blocks_state(2) [where args = args and env = env and n = "unat (num_blocks args)" and s = "(k, a, b, tr)"]
    by (simp add: r in0_batch_ids_def)
  have tr1: "read_tile_ids In1 tr' = read_tile_ids In1 tr @ in1_batch_ids args b"
    using reader_blocks_state(4) [where args = args and env = env and n = "unat (num_blocks args)" and s = "(k, a, b, tr)"]
    by (simp add: r in1_batch_ids_def)
  show "fst (snd (reader_batch_step args env s)) = fst (snd s) + MtKt args"
    unfolding step by (simp add: s)
  show "fst (snd (snd (reader_batch_step args env s))) = fst (snd (snd s)) + in1_batch_stride args"
    unfolding step by (simp add: s in1_batch_stride_def)
  show "read_tile_ids In0 (snd (snd (snd (reader_batch_step args env s)))) =
     read_tile_ids In0 (snd (snd (snd s))) @ in0_batch_ids args (fst (snd s))"
    unfolding step by (simp add: s tr0)
  show "read_tile_ids In1 (snd (snd (snd (reader_batch_step args env s)))) =
     read_tile_ids In1 (snd (snd (snd s))) @ in1_batch_ids args (fst (snd (snd s)))"
    unfolding step by (simp add: s tr1)
qed

lemma reader_batches_state:
  "fst (snd (reader_batches args env n)) = in0_tensor_start_tile_id args + of_nat n * MtKt args"
  "fst (snd (snd (reader_batches args env n))) =
     in1_tensor_start_tile_id args + of_nat n * in1_batch_stride args"
  "read_tile_ids In0 (snd (snd (snd (reader_batches args env n)))) =
     concat (map (\<lambda>b. in0_batch_ids args (in0_tensor_start_tile_id args + of_nat b * MtKt args)) [0..<n])"
  "read_tile_ids In1 (snd (snd (snd (reader_batches args env n)))) =
     concat (map (\<lambda>b. in1_batch_ids args (in1_tensor_start_tile_id args + of_nat b * in1_batch_stride args))
                 [0..<n])"
  unfolding reader_batches_def
  using funpow_advance [where pos = "\<lambda>s. fst (snd s)" and step = "reader_batch_step args env"
        and d = "MtKt args" and ids = "\<lambda>s. read_tile_ids In0 (snd (snd (snd s)))"
        and g = "in0_batch_ids args" and n = n
        and s = "(0, in0_tensor_start_tile_id args, in1_tensor_start_tile_id args, [])"]
    funpow_advance [where pos = "\<lambda>s. fst (snd (snd s))" and step = "reader_batch_step args env"
        and d = "in1_batch_stride args" and ids = "\<lambda>s. read_tile_ids In1 (snd (snd (snd s)))"
        and g = "in1_batch_ids args" and n = n
        and s = "(0, in0_tensor_start_tile_id args, in1_tensor_start_tile_id args, [])"]
  by (simp_all add: reader_batch_step_state)

subsection \<open>The writer's traversal\<close>

lemma write_tile_ids_append:
  "write_tile_ids (xs @ ys) = write_tile_ids xs @ write_tile_ids ys"
  by (induction xs rule: write_tile_ids.induct) simp_all

lemma write_tile_step_state:
  "fst (snd (snd (write_tile_step args env s))) = fst (snd (snd s)) + out_tensor_stride_w args"
  "write_tile_ids (snd (snd (snd (write_tile_step args env s)))) =
     write_tile_ids (snd (snd (snd s))) @ [fst (snd (snd s))]"
  by (cases s; simp add: write_tile_step_def Let_def write_tile_ids_append)+

lemma write_row_step_state:
  "fst (snd (snd (write_row_step args env s))) = fst (snd (snd s)) + out_tensor_stride_h args"
  "write_tile_ids (snd (snd (snd (write_row_step args env s)))) =
     write_tile_ids (snd (snd (snd s))) @
       map (\<lambda>w. fst (snd (snd s)) + of_nat w * out_tensor_stride_w args) [0..<unat (out_subblock_w args)]"
proof -
  obtain m l1 tid tr where s: "s = (m, l1, tid, tr)" by (cases s)
  obtain m' l1' tid' tr' where
    r: "(write_tile_step args env ^^ unat (out_subblock_w args)) (m, l1, tid, tr) = (m', l1', tid', tr')"
    by (cases "(write_tile_step args env ^^ unat (out_subblock_w args)) (m, l1, tid, tr)")
  have step: "write_row_step args env s = (m', l1', tid + out_tensor_stride_h args, tr')"
    by (simp add: write_row_step_def s r)
  have tr': "write_tile_ids tr' = write_tile_ids tr @
       map (\<lambda>w. tid + of_nat w * out_tensor_stride_w args) [0..<unat (out_subblock_w args)]"
    using funpow_advance [where pos = "\<lambda>s. fst (snd (snd s))" and step = "write_tile_step args env"
        and d = "out_tensor_stride_w args" and ids = "\<lambda>s. write_tile_ids (snd (snd (snd s)))"
        and g = "\<lambda>p. [p]" and n = "unat (out_subblock_w args)" and s = "(m, l1, tid, tr)"]
    by (simp add: write_tile_step_state r concat_map_single)
  show "fst (snd (snd (write_row_step args env s))) = fst (snd (snd s)) + out_tensor_stride_h args"
    unfolding step by (simp add: s)
  show "write_tile_ids (snd (snd (snd (write_row_step args env s)))) =
     write_tile_ids (snd (snd (snd s))) @
       map (\<lambda>w. fst (snd (snd s)) + of_nat w * out_tensor_stride_w args) [0..<unat (out_subblock_w args)]"
    unfolding step by (simp add: s tr')
qed

lemma write_subblock_step_state:
  "fst (snd (snd (write_subblock_step args env s))) =
     fst (snd (snd s)) + out_tensor_next_subblock_stride_w args"
  "write_tile_ids (snd (snd (snd (write_subblock_step args env s)))) =
     write_tile_ids (snd (snd (snd s))) @ out_subblock_ids args (fst (snd (snd s)))"
proof -
  obtain m k start tr where s: "s = (m, k, start, tr)" by (cases s)
  define tr1 where "tr1 = tr @ [CbWaitFront cb_id_out0 (out_subblock_tile_count args)]"
  obtain m' l1' tid' tr' where
    r: "(write_row_step args env ^^ unat (out_subblock_h args)) (m, get_read_ptr_out0 env k, start, tr1)
          = (m', l1', tid', tr')"
    by (cases "(write_row_step args env ^^ unat (out_subblock_h args)) (m, get_read_ptr_out0 env k, start, tr1)")
  have step: "write_subblock_step args env s =
      (m', Suc k, start + out_tensor_next_subblock_stride_w args,
       tr' @ [NocAsyncWriteBarrier, CbPopFront cb_id_out0 (out_subblock_tile_count args)])"
    by (simp add: write_subblock_step_def s Let_def tr1_def [symmetric] r)
  have tr': "write_tile_ids tr' = write_tile_ids tr1 @ out_subblock_ids args start"
    using funpow_advance [where pos = "\<lambda>s. fst (snd (snd s))" and step = "write_row_step args env"
        and d = "out_tensor_stride_h args" and ids = "\<lambda>s. write_tile_ids (snd (snd (snd s)))"
        and g = "\<lambda>p. map (\<lambda>w. p + of_nat w * out_tensor_stride_w args) [0..<unat (out_subblock_w args)]"
        and n = "unat (out_subblock_h args)" and s = "(m, get_read_ptr_out0 env k, start, tr1)"]
    by (simp add: write_row_step_state r out_subblock_ids_def block_tile_ids_def)
  show "fst (snd (snd (write_subblock_step args env s))) =
     fst (snd (snd s)) + out_tensor_next_subblock_stride_w args"
    unfolding step by (simp add: s)
  show "write_tile_ids (snd (snd (snd (write_subblock_step args env s)))) =
     write_tile_ids (snd (snd (snd s))) @ out_subblock_ids args (fst (snd (snd s)))"
    unfolding step by (simp add: s tr' tr1_def write_tile_ids_append)
qed

lemma write_sbh_step_state:
  "fst (snd (snd (write_sbh_step args env s))) =
     fst (snd (snd s)) + out_tensor_next_subblock_stride_h args"
  "write_tile_ids (snd (snd (snd (write_sbh_step args env s)))) =
     write_tile_ids (snd (snd (snd s))) @ out_sbh_ids args (fst (snd (snd s)))"
proof -
  obtain m k start tr where s: "s = (m, k, start, tr)" by (cases s)
  obtain m' k' tid' tr' where
    r: "(write_subblock_step args env ^^ unat (out_num_subblocks_w args)) (m, k, start, tr)
          = (m', k', tid', tr')"
    by (cases "(write_subblock_step args env ^^ unat (out_num_subblocks_w args)) (m, k, start, tr)")
  have step: "write_sbh_step args env s =
      (m', k', start + out_tensor_next_subblock_stride_h args, tr')"
    by (simp add: write_sbh_step_def s r)
  have tr': "write_tile_ids tr' = write_tile_ids tr @ out_sbh_ids args start"
    using funpow_advance [where pos = "\<lambda>s. fst (snd (snd s))" and step = "write_subblock_step args env"
        and d = "out_tensor_next_subblock_stride_w args"
        and ids = "\<lambda>s. write_tile_ids (snd (snd (snd s)))"
        and g = "out_subblock_ids args"
        and n = "unat (out_num_subblocks_w args)" and s = "(m, k, start, tr)"]
    by (simp add: write_subblock_step_state r out_sbh_ids_def)
  show "fst (snd (snd (write_sbh_step args env s))) =
     fst (snd (snd s)) + out_tensor_next_subblock_stride_h args"
    unfolding step by (simp add: s)
  show "write_tile_ids (snd (snd (snd (write_sbh_step args env s)))) =
     write_tile_ids (snd (snd (snd s))) @ out_sbh_ids args (fst (snd (snd s)))"
    unfolding step by (simp add: s tr')
qed

lemma writer_batch_step_state:
  "fst (snd (snd (writer_batch_step args env s))) = fst (snd (snd s)) + MtNt args"
  "write_tile_ids (snd (snd (snd (writer_batch_step args env s)))) =
     write_tile_ids (snd (snd (snd s))) @ out_batch_ids args (fst (snd (snd s)))"
proof -
  obtain m k start tr where s: "s = (m, k, start, tr)" by (cases s)
  obtain m' k' tid' tr' where
    r: "(write_sbh_step args env ^^ unat (out_num_subblocks_h args)) (m, k, start, tr)
          = (m', k', tid', tr')"
    by (cases "(write_sbh_step args env ^^ unat (out_num_subblocks_h args)) (m, k, start, tr)")
  have step: "writer_batch_step args env s = (m', k', start + MtNt args, tr')"
    by (simp add: writer_batch_step_def s r)
  have tr': "write_tile_ids tr' = write_tile_ids tr @ out_batch_ids args start"
    using funpow_advance [where pos = "\<lambda>s. fst (snd (snd s))" and step = "write_sbh_step args env"
        and d = "out_tensor_next_subblock_stride_h args"
        and ids = "\<lambda>s. write_tile_ids (snd (snd (snd s)))"
        and g = "out_sbh_ids args"
        and n = "unat (out_num_subblocks_h args)" and s = "(m, k, start, tr)"]
    by (simp add: write_sbh_step_state r out_batch_ids_def)
  show "fst (snd (snd (writer_batch_step args env s))) = fst (snd (snd s)) + MtNt args"
    unfolding step by (simp add: s)
  show "write_tile_ids (snd (snd (snd (writer_batch_step args env s)))) =
     write_tile_ids (snd (snd (snd s))) @ out_batch_ids args (fst (snd (snd s)))"
    unfolding step by (simp add: s tr')
qed

lemma writer_kernel_main_ids:
  "write_tile_ids (snd (writer_kernel_main args env m)) =
     concat (map (\<lambda>b. out_batch_ids args (out_tensor_start_tile_id args + of_nat b * MtNt args))
                 [0..<unat (out_batch args)])"
proof -
  obtain m' k' tid' tr' where
    r: "(writer_batch_step args env ^^ unat (out_batch args)) (m, 0, out_tensor_start_tile_id args, [])
          = (m', k', tid', tr')"
    by (cases "(writer_batch_step args env ^^ unat (out_batch args)) (m, 0, out_tensor_start_tile_id args, [])")
  have "write_tile_ids tr' =
     concat (map (\<lambda>b. out_batch_ids args (out_tensor_start_tile_id args + of_nat b * MtNt args))
                 [0..<unat (out_batch args)])"
    using funpow_advance [where pos = "\<lambda>s. fst (snd (snd s))" and step = "writer_batch_step args env"
        and d = "MtNt args" and ids = "\<lambda>s. write_tile_ids (snd (snd (snd s)))"
        and g = "out_batch_ids args"
        and n = "unat (out_batch args)" and s = "(m, 0, out_tensor_start_tile_id args, [])"]
    by (simp add: writer_batch_step_state r)
  then show ?thesis by (simp add: writer_kernel_main_def r)
qed

section \<open>Properties of the reader's trace\<close>

text \<open>
  Every round of every loop only appends to the trace, and the first tile of a compact
  first operand puts a conversion right behind the issue of its transfer. So whenever the
  first operand is flagged compact and the kernel reads at least one of its tiles, a
  conversion runs on a tile whose transfer is pending.
\<close>

lemma pending_decode_fails:
  "\<not> decodes_after_completion pending
        (xs @ NocAsyncReadTile opnd tile_id l1_addr # ConvertMxfp4ToFp32 l1_addr l1_addr n # ys)"
proof (induction xs arbitrary: pending)
  case Nil
  show ?case by simp
next
  case (Cons x xs)
  then show ?case by (cases x) simp_all
qed

lemma early_decode_fails: "early_decode tr \<Longrightarrow> \<not> decodes_after_completion pending tr"
  unfolding early_decode_def using pending_decode_fails by blast

lemma early_decode_append: "early_decode tr \<Longrightarrow> early_decode (tr @ zs)"
  unfolding early_decode_def by (metis append_Cons append_assoc)

lemma funpow_extends:
  assumes "\<And>s. \<exists>zs. tr (step s) = tr s @ zs"
  shows "\<exists>zs. tr ((step ^^ n) s) = tr s @ (zs :: 'e list)"
proof (induction n)
  case 0
  show ?case by simp
next
  case (Suc n)
  then obtain zs where "tr ((step ^^ n) s) = tr s @ zs" by blast
  moreover obtain zs' where "tr (step ((step ^^ n) s)) = tr ((step ^^ n) s) @ zs'"
    using assms by blast
  ultimately show ?case by simp
qed

lemma funpow_early_decode:
  assumes ext: "\<And>s. \<exists>zs. tr (step s) = tr s @ zs"
    and first: "\<And>s. early_decode (tr (step s))" and n: "0 < n"
  shows "early_decode (tr ((step ^^ n) s))"
proof -
  obtain k where k: "n = Suc k" using n by (cases n) simp_all
  obtain zs where "tr ((step ^^ k) (step s)) = tr (step s) @ zs"
    using funpow_extends [where tr = tr and step = step, OF ext] by blast
  then show ?thesis
    using first [of s] by (simp add: k funpow_swap1 early_decode_append)
qed

lemma read_tile_step_extends:
  "\<exists>zs. snd (snd (read_tile_step opnd f tsb sw s)) = snd (snd s) @ zs"
  by (cases s) (simp add: read_tile_step_def)

lemma read_tile_step_early:
  "f \<noteq> 0 \<Longrightarrow> early_decode (snd (snd (read_tile_step opnd f tsb sw s)))"
proof -
  assume f: "f \<noteq> 0"
  obtain l1 tid tr where s: "s = (l1, tid, tr)" by (cases s)
  have "early_decode (tr @ [NocAsyncReadTile opnd tid l1, ConvertMxfp4ToFp32 l1 l1 (tsb div 4)])"
    unfolding early_decode_def by (intro exI) (rule refl)
  then show ?thesis by (simp add: read_tile_step_def s f)
qed

lemma read_row_step_trace:
  "snd (snd (read_row_step opnd f tsb sw sh bw s)) =
     snd (snd ((read_tile_step opnd f tsb sw ^^ unat bw) s))"
  by (cases s) (simp add: read_row_step_def split: prod.splits)

lemma read_row_step_extends:
  "\<exists>zs. snd (snd (read_row_step opnd f tsb sw sh bw s)) = snd (snd s) @ zs"
  unfolding read_row_step_trace
  by (rule funpow_extends [where tr = "\<lambda>s. snd (snd s)"]) (rule read_tile_step_extends)

lemma read_row_step_early:
  "f \<noteq> 0 \<Longrightarrow> bw \<noteq> 0 \<Longrightarrow> early_decode (snd (snd (read_row_step opnd f tsb sw sh bw s)))"
  unfolding read_row_step_trace
  by (rule funpow_early_decode [where tr = "\<lambda>s. snd (snd s)"])
     (simp_all add: read_tile_step_extends read_tile_step_early unat_gt_0)

lemma read_block_in0_early:
  assumes "in0_is_mxfp4 args \<noteq> 0" "in0_block_w args \<noteq> 0" "in0_block_h args \<noteq> 0"
  shows "early_decode (read_block_in0 args env l1 start tr)"
  unfolding read_block_in0_def
  by (rule funpow_early_decode [where tr = "\<lambda>s. snd (snd s)"])
     (use assms in \<open>simp_all add: read_row_step_extends read_row_step_early unat_gt_0\<close>)

lemma read_block_in1_extends:
  "\<exists>zs. read_block_in1 args env l1 start tr = tr @ zs"
  unfolding read_block_in1_def
  using funpow_extends [where tr = "\<lambda>s. snd (snd s)" and s = "(l1, start, tr)",
      OF read_row_step_extends]
  by simp

lemma read_block_in0_extends:
  "\<exists>zs. read_block_in0 args env l1 start tr = tr @ zs"
  unfolding read_block_in0_def
  using funpow_extends [where tr = "\<lambda>s. snd (snd s)" and s = "(l1, start, tr)",
      OF read_row_step_extends]
  by simp

lemma reader_block_step_extends:
  "\<exists>zs. snd (snd (snd (reader_block_step args env s))) = snd (snd (snd s)) @ zs"
proof -
  obtain k a b tr where s: "s = (k, a, b, tr)" by (cases s)
  define tr1 where "tr1 = tr @ [CbReserveBack cb_id_in0 (in0_block_num_tiles args),
                        CbReserveBack cb_id_in1 (in1_block_num_tiles args)]"
  obtain zs where 2: "read_block_in0 args env (get_write_ptr_in0 env k) a tr1 = tr1 @ zs"
    using read_block_in0_extends by blast
  obtain zs' where 3: "read_block_in1 args env (get_write_ptr_in1 env k) b (tr1 @ zs) = (tr1 @ zs) @ zs'"
    using read_block_in1_extends by blast
  show ?thesis
    by (simp add: reader_block_step_def s Let_def tr1_def [symmetric] 2 3) (simp add: tr1_def)
qed

lemma reader_block_step_early:
  assumes "in0_is_mxfp4 args \<noteq> 0" "in0_block_w args \<noteq> 0" "in0_block_h args \<noteq> 0"
  shows "early_decode (snd (snd (snd (reader_block_step args env s))))"
proof -
  obtain k a b tr where s: "s = (k, a, b, tr)" by (cases s)
  define tr1 where "tr1 = tr @ [CbReserveBack cb_id_in0 (in0_block_num_tiles args),
                        CbReserveBack cb_id_in1 (in1_block_num_tiles args)]"
  define tr2 where "tr2 = read_block_in0 args env (get_write_ptr_in0 env k) a tr1"
  have e: "early_decode tr2"
    unfolding tr2_def using assms by (rule read_block_in0_early)
  obtain zs' where 3: "read_block_in1 args env (get_write_ptr_in1 env k) b tr2 = tr2 @ zs'"
    using read_block_in1_extends by blast
  show ?thesis
    using e
    by (simp add: reader_block_step_def s Let_def tr1_def [symmetric] tr2_def [symmetric] 3
        early_decode_append)
qed

lemma reader_batch_step_trace:
  "snd (snd (snd (reader_batch_step args env s))) =
     snd (snd (snd ((reader_block_step args env ^^ unat (num_blocks args)) s)))"
  by (cases s) (simp add: reader_batch_step_def split: prod.splits)

lemma reader_batch_step_extends:
  "\<exists>zs. snd (snd (snd (reader_batch_step args env s))) = snd (snd (snd s)) @ zs"
  unfolding reader_batch_step_trace
  by (rule funpow_extends [where tr = "\<lambda>s. snd (snd (snd s))"]) (rule reader_block_step_extends)

lemma reader_batch_step_early:
  assumes "in0_is_mxfp4 args \<noteq> 0" "in0_block_w args \<noteq> 0" "in0_block_h args \<noteq> 0"
    "num_blocks args \<noteq> 0"
  shows "early_decode (snd (snd (snd (reader_batch_step args env s))))"
  unfolding reader_batch_step_trace
  by (rule funpow_early_decode [where tr = "\<lambda>s. snd (snd (snd s))"])
     (use assms in \<open>simp_all add: reader_block_step_extends reader_block_step_early unat_gt_0\<close>)

lemma reader_decodes_pending_tile:
  assumes "in0_is_mxfp4 args \<noteq> 0" "in0_block_w args \<noteq> 0" "in0_block_h args \<noteq> 0"
    "num_blocks args \<noteq> 0" "batch args \<noteq> 0"
  shows "\<not> decodes_after_completion [] (reader_kernel_main args env)"
proof (rule early_decode_fails)
  show "early_decode (reader_kernel_main args env)"
    unfolding reader_kernel_main_def reader_batches_def
    by (rule funpow_early_decode [where tr = "\<lambda>s. snd (snd (snd s))"])
       (use assms in \<open>simp_all add: reader_batch_step_extends reader_batch_step_early unat_gt_0\<close>)
qed

section \<open>The writer on the sample tile\<close>

lemma writer_example_run:
  "writer_kernel_main example_writer_args example_writer_env m =
     (convert_fp32_to_mxfp4_tile 0 1000 32 m,
      [CbWaitFront 16 1, NocAsyncWrite 0 0x30000 0 20, NocAsyncWriteBarrier, CbPopFront 16 1])"
  by (simp add: writer_kernel_main_def writer_batch_step_def write_sbh_step_def
      write_subblock_step_def write_row_step_def write_tile_step_def Let_def word_index_def
      example_writer_args_def example_writer_env_def)

lemma writer_example_tile_kept:
  assumes "a < 1000"
  shows "convert_fp32_to_mxfp4_tile 0 1000 32 m a = m a"
  by (rule encode_tile_frame) (use assms in \<open>simp add: compact_block_def\<close>)

lemma writer_example_buffer:
  "map (convert_fp32_to_mxfp4_tile 0 1000 32 ones_tile) [1000..<1005] =
     [0x7F000000, 0x11111111, 0x11111111, 0x11111111, 0x11111111]"
  by code_simp

section \<open>Claims about the codec\<close>

text \<open>
  C1. Running the decoder, or the encoder, with both pointers on the same buffer gives the
  same destination contents as running it into a separate buffer. The code does not: on
  the compact tile \<open>packed_tile\<close> of 64 elements, decoded where it stands as the reader
  does, element 2 reads its nibble from word 1 after element 1 was stored there and
  becomes 0, while decoding into a buffer at 1000 gives \<open>0x3F880000\<close>. On the
  full-precision tile \<open>ones_tile\<close>, encoded where it stands, the first magnitude word
  is \<open>0x3F991110\<close>, and \<open>0x11111111\<close> in a clean buffer at 1000.
\<close>

theorem aliased_tile_differs:
  "convert_mxfp4_to_fp32_tile 0 0 64 packed_tile (0 + 2) = 0 \<and>
   convert_mxfp4_to_fp32_tile 0 1000 64 packed_tile (1000 + 2) = 0x3F880000 \<and>
   convert_fp32_to_mxfp4_tile 0 0 64 ones_tile (0 + 1) = 0x3F991110 \<and>
   convert_fp32_to_mxfp4_tile 0 1000 64 ones_tile (1000 + 1) = 0x11111111"
  by code_simp

text \<open>
  C4. Encoding a tile whose blocks each have one exponent among their nonzero words into a
  clean buffer apart from the tile, and decoding that into a third place: the magnitude of
  a nonzero word is the top four bits of its mantissa, unshifted; the decoded word has that
  magnitude in the top four bits of its mantissa; its exponent field is the block's shared
  exponent when the magnitude is not zero, and the word is 0 when the magnitude is zero.
\<close>

theorem roundtrip_shared_exponent:
  fixes tile_size :: u32 and m :: memory
  assumes "apart src (32 * unat (tile_size div 32)) buf (5 * unat (tile_size div 32))"
    and "apart buf (5 * unat (tile_size div 32)) dst (32 * unat (tile_size div 32))"
    and "\<forall>a\<in>{buf ..< buf + 5 * unat (tile_size div 32)}. m a = 0"
    and "i < unat (tile_size div 32)" and "j < 32"
    and "\<forall>k<32. m (src + (i * 32 + k)) \<noteq> 0 \<longrightarrow> exp_field (m (src + (i * 32 + k))) = e"
    and "decoded = convert_mxfp4_to_fp32_tile buf dst tile_size
                     (convert_fp32_to_mxfp4_tile src buf tile_size m) (dst + (i * 32 + j))"
    and "magnitude = quantize (find_max_exp m src i) (m (src + (i * 32 + j)))"
  shows "(m (src + (i * 32 + j)) \<noteq> 0 \<longrightarrow>
            find_max_exp m src i = e \<and> magnitude = ucast (mantissa_top4 (m (src + (i * 32 + j))))) \<and>
         mantissa_top4 decoded = ucast magnitude \<and>
         (magnitude \<noteq> 0 \<longrightarrow> exp_field decoded = find_max_exp m src i) \<and>
         (magnitude = 0 \<longrightarrow> decoded = 0)"
proof -
  have dec: "decoded = reconstruct_fp32 (find_max_exp m src i) magnitude"
    unfolding assms(7,8) using assms(1-5) by (rule roundtrip_elem)
  have lt: "\<And>n. bit magnitude n \<Longrightarrow> n < 4"
    unfolding assms(8) by (rule bit_quantize_less)
  have 1: "find_max_exp m src i = e \<and> magnitude = ucast (mantissa_top4 (m (src + (i * 32 + j))))"
    if nz: "m (src + (i * 32 + j)) \<noteq> 0"
  proof -
    have "\<exists>k<32. m (src + (i * 32 + k)) \<noteq> 0" using nz assms(5) by blast
    then have e: "find_max_exp m src i = e"
      unfolding find_max_exp_def using max_exp_loop_same [OF assms(6)] by simp
    moreover have "exp_field (m (src + (i * 32 + j))) = e" using nz assms(5,6) by blast
    ultimately show ?thesis
      unfolding assms(8) using nz by (simp add: quantize_same_exp)
  qed
  have 2: "mantissa_top4 decoded = ucast magnitude"
  proof (cases "magnitude = 0")
    case True
    then show ?thesis by (simp add: dec reconstruct_fp32_def mantissa_top4_def)
  next
    case False
    then show ?thesis unfolding dec using lt by (rule reconstruct_fields)
  qed
  have 3: "exp_field decoded = find_max_exp m src i" if "magnitude \<noteq> 0"
    unfolding dec using that lt by (rule reconstruct_fields)
  have 4: "decoded = 0" if "magnitude = 0"
    using that by (simp add: dec reconstruct_fp32_def)
  from 1 2 3 4 show ?thesis by blast
qed

text \<open>C4, at a block holding \<open>0x3FC80000\<close>, 1.0 and zeros: element 0 comes back as it was.\<close>

theorem roundtrip_shared_exponent_witness:
  "exp_field (convert_mxfp4_to_fp32_tile 100 200 32
               (convert_fp32_to_mxfp4_tile 0 100 32 mixed_tile) (200 + (0 * 32 + 0))) = 127 \<and>
   mantissa_top4 (convert_mxfp4_to_fp32_tile 100 200 32
               (convert_fp32_to_mxfp4_tile 0 100 32 mixed_tile) (200 + (0 * 32 + 0))) = 9 \<and>
   mantissa_top4 (mixed_tile (0 + (0 * 32 + 0))) = 9 \<and>
   exp_field (mixed_tile (0 + (0 * 32 + 0))) = 127"
proof -
  have 1: "apart 0 (32 * unat ((32::u32) div 32)) 100 (5 * unat ((32::u32) div 32))"
    and 2: "apart 100 (5 * unat ((32::u32) div 32)) 200 (32 * unat ((32::u32) div 32))"
    by (simp_all add: apart_def)
  have 3: "\<forall>a\<in>{100 ..< 100 + 5 * unat ((32::u32) div 32)}. mixed_tile a = 0"
    by (simp add: mixed_tile_def)
  have 4: "0 < unat ((32::u32) div 32)" and 5: "(0::nat) < 32" by simp_all
  have 6: "\<forall>k<32. mixed_tile (0 + (0 * 32 + k)) \<noteq> 0 \<longrightarrow>
              exp_field (mixed_tile (0 + (0 * 32 + k))) = 127"
    by (simp add: mixed_tile_def exp_field_def)
  have nz: "mixed_tile (0 + (0 * 32 + 0)) \<noteq> 0" "mantissa_top4 (mixed_tile (0 + (0 * 32 + 0))) = 9"
    "exp_field (mixed_tile (0 + (0 * 32 + 0))) = 127"
    by (simp_all add: mixed_tile_def mantissa_top4_def exp_field_def)
  note r = roundtrip_shared_exponent [OF 1 2 3 4 5 6 refl refl]
  from r nz(1) have e: "find_max_exp mixed_tile 0 0 = 127"
    and q: "quantize (find_max_exp mixed_tile 0 0) (mixed_tile (0 + (0 * 32 + 0))) =
              ucast (mantissa_top4 (mixed_tile (0 + (0 * 32 + 0))))"
    by blast+
  from q nz(2) have q9: "quantize (find_max_exp mixed_tile 0 0) (mixed_tile (0 + (0 * 32 + 0))) = 9"
    by simp
  from r have "mantissa_top4 (convert_mxfp4_to_fp32_tile 100 200 32
               (convert_fp32_to_mxfp4_tile 0 100 32 mixed_tile) (200 + (0 * 32 + 0))) =
        ucast (quantize (find_max_exp mixed_tile 0 0) (mixed_tile (0 + (0 * 32 + 0))))"
    by blast
  then have m9: "mantissa_top4 (convert_mxfp4_to_fp32_tile 100 200 32
               (convert_fp32_to_mxfp4_tile 0 100 32 mixed_tile) (200 + (0 * 32 + 0))) = 9"
    unfolding q9 by simp
  from r have "quantize (find_max_exp mixed_tile 0 0) (mixed_tile (0 + (0 * 32 + 0))) \<noteq> 0 \<longrightarrow>
      exp_field (convert_mxfp4_to_fp32_tile 100 200 32
               (convert_fp32_to_mxfp4_tile 0 100 32 mixed_tile) (200 + (0 * 32 + 0))) =
      find_max_exp mixed_tile 0 0"
    by blast
  then have "exp_field (convert_mxfp4_to_fp32_tile 100 200 32
               (convert_fp32_to_mxfp4_tile 0 100 32 mixed_tile) (200 + (0 * 32 + 0))) =
      find_max_exp mixed_tile 0 0"
    unfolding q9 by simp
  then have e127: "exp_field (convert_mxfp4_to_fp32_tile 100 200 32
               (convert_fp32_to_mxfp4_tile 0 100 32 mixed_tile) (200 + (0 * 32 + 0))) = 127"
    unfolding e .
  from e127 m9 nz(2,3) show ?thesis by blast
qed

text \<open>
  C4 as stated asks the exponent field of every decoded word to be the shared exponent. A
  block of the value 1.0 has magnitude 0 everywhere and decodes to zeros, whose exponent
  field is 0 and not 127.
\<close>

theorem roundtrip_exponent_counterexample:
  "\<not> (\<forall>(m :: memory) src buf dst (tile_size :: u32) i j e.
        apart src (32 * unat (tile_size div 32)) buf (5 * unat (tile_size div 32)) \<longrightarrow>
        apart buf (5 * unat (tile_size div 32)) dst (32 * unat (tile_size div 32)) \<longrightarrow>
        (\<forall>a\<in>{buf ..< buf + 5 * unat (tile_size div 32)}. m a = 0) \<longrightarrow>
        i < unat (tile_size div 32) \<longrightarrow> j < 32 \<longrightarrow>
        (\<forall>k<32. m (src + (i * 32 + k)) \<noteq> 0 \<longrightarrow> exp_field (m (src + (i * 32 + k))) = e) \<longrightarrow>
        exp_field (convert_mxfp4_to_fp32_tile buf dst tile_size
                     (convert_fp32_to_mxfp4_tile src buf tile_size m) (dst + (i * 32 + j)))
          = find_max_exp m src i \<and>
        mantissa_top4 (convert_mxfp4_to_fp32_tile buf dst tile_size
                     (convert_fp32_to_mxfp4_tile src buf tile_size m) (dst + (i * 32 + j)))
          = ucast (quantize (find_max_exp m src i) (m (src + (i * 32 + j)))))"
proof
  assume H: "\<forall>(m :: memory) src buf dst (tile_size :: u32) i j e.
        apart src (32 * unat (tile_size div 32)) buf (5 * unat (tile_size div 32)) \<longrightarrow>
        apart buf (5 * unat (tile_size div 32)) dst (32 * unat (tile_size div 32)) \<longrightarrow>
        (\<forall>a\<in>{buf ..< buf + 5 * unat (tile_size div 32)}. m a = 0) \<longrightarrow>
        i < unat (tile_size div 32) \<longrightarrow> j < 32 \<longrightarrow>
        (\<forall>k<32. m (src + (i * 32 + k)) \<noteq> 0 \<longrightarrow> exp_field (m (src + (i * 32 + k))) = e) \<longrightarrow>
        exp_field (convert_mxfp4_to_fp32_tile buf dst tile_size
                     (convert_fp32_to_mxfp4_tile src buf tile_size m) (dst + (i * 32 + j)))
          = find_max_exp m src i \<and>
        mantissa_top4 (convert_mxfp4_to_fp32_tile buf dst tile_size
                     (convert_fp32_to_mxfp4_tile src buf tile_size m) (dst + (i * 32 + j)))
          = ucast (quantize (find_max_exp m src i) (m (src + (i * 32 + j))))"
  have 1: "apart 0 (32 * unat ((32::u32) div 32)) 100 (5 * unat ((32::u32) div 32))"
    and 2: "apart 100 (5 * unat ((32::u32) div 32)) 200 (32 * unat ((32::u32) div 32))"
    by (simp_all add: apart_def)
  have 3: "\<forall>a\<in>{100 ..< 100 + 5 * unat ((32::u32) div 32)}. unit_tile a = 0"
    by (simp add: unit_tile_def)
  have 4: "0 < unat ((32::u32) div 32)" and 5: "(1::nat) < 32" by simp_all
  have 6: "\<forall>k<32. unit_tile (0 + (0 * 32 + k)) \<noteq> 0 \<longrightarrow>
              exp_field (unit_tile (0 + (0 * 32 + k))) = 127"
    by (simp add: unit_tile_def exp_field_def)
  from H [THEN spec [where x = unit_tile], THEN spec [where x = "0::nat"],
      THEN spec [where x = "100::nat"], THEN spec [where x = "200::nat"],
      THEN spec [where x = "32::u32"], THEN spec [where x = "0::nat"],
      THEN spec [where x = "1::nat"], THEN spec [where x = "127::u8"],
      THEN mp, THEN mp, THEN mp, THEN mp, THEN mp, THEN mp, OF 1 2 3 4 5 6]
  have "exp_field (convert_mxfp4_to_fp32_tile 100 200 32
          (convert_fp32_to_mxfp4_tile 0 100 32 unit_tile) (200 + (0 * 32 + 1)))
        = find_max_exp unit_tile 0 0"
    by (rule conjunct1)
  moreover have "convert_mxfp4_to_fp32_tile 100 200 32
          (convert_fp32_to_mxfp4_tile 0 100 32 unit_tile) (200 + (0 * 32 + 1)) = 0"
    by code_simp
  moreover have "find_max_exp unit_tile 0 0 = 127"
    by code_simp
  ultimately show False by (simp add: exp_field_def)
qed

text \<open>
  C5. After encoding a block, nibble \<open>j mod 8\<close> of magnitude word \<open>j div 8\<close> is the magnitude
  computed for element \<open>j\<close>. The encoder ORs into words it never clears (see
  \<open>encode_tile_nibble\<close>: what comes out is the old nibble ORed with the magnitude), so
  with the word \<open>0xDEADBEEF\<close> left in the buffer and a block of zeros, nibble 0 is
  \<open>0xF\<close> while the magnitude computed for element 0 is 0.
\<close>

theorem dirty_buffer_nibble:
  "extract_nibble (convert_fp32_to_mxfp4_tile 0 100 32 dirty_scratch (100 + byte_idx 0 0))
     (nibble_idx 0) = 0xF \<and>
   quantize (find_max_exp dirty_scratch 0 0) (dirty_scratch (0 + (0 * 32 + 0))) = 0"
  by code_simp



text \<open>
  C9. The encoder assigns the exponent word of each block and only ORs into its four
  magnitude words. For a block whose 32 words are all zero, in a tile that is apart from
  the destination or is the destination, the exponent word becomes 0 and the four
  magnitude words keep what they held: the destination after the call depends on the
  destination before it.
\<close>

theorem zero_block_keeps_magnitude_words:
  fixes tile_size :: u32
  assumes "src = dst \<or> apart src (32 * unat (tile_size div 32)) dst (5 * unat (tile_size div 32))"
    and "i < unat (tile_size div 32)"
    and "\<forall>j<32. m (src + (i * 32 + j)) = 0"
  shows "convert_fp32_to_mxfp4_tile src dst tile_size m (dst + i * 5) = 0 \<and>
         (\<forall>k\<in>{1..4}. convert_fp32_to_mxfp4_tile src dst tile_size m (dst + i * 5 + k)
                        = m (dst + i * 5 + k))"
proof -
  have "dst + i * 5 \<in> compact_block dst i"
    by (rule exp_word_in_compact)
  from encode_tile_zero_block [OF assms this]
  have 1: "convert_fp32_to_mxfp4_tile src dst tile_size m (dst + i * 5) = 0" by simp
  have 2: "convert_fp32_to_mxfp4_tile src dst tile_size m (dst + i * 5 + k) = m (dst + i * 5 + k)"
    if "k \<in> {1..4}" for k
  proof -
    have "dst + i * 5 + k \<in> compact_block dst i"
      using that by (simp add: compact_block_def)
    from encode_tile_zero_block [OF assms this] that show ?thesis by simp
  qed
  from 1 2 show ?thesis by blast
qed

text \<open>C9, on a block of zeros with \<open>0xDEADBEEF\<close> in the first magnitude word.\<close>

theorem zero_block_keeps_magnitude_words_witness:
  "convert_fp32_to_mxfp4_tile 0 100 32 dirty_scratch (100 + 0 * 5) = 0 \<and>
   convert_fp32_to_mxfp4_tile 0 100 32 dirty_scratch (100 + 0 * 5 + 1) = 0xDEADBEEF \<and>
   dirty_scratch (100 + 0 * 5 + 1) = 0xDEADBEEF"
proof -
  have g: "(0::nat) = 100 \<or> apart 0 (32 * unat ((32::u32) div 32)) 100 (5 * unat ((32::u32) div 32))"
    by (simp add: apart_def)
  have i: "0 < unat ((32::u32) div 32)" by simp
  have z: "\<forall>j<32. dirty_scratch (0 + (0 * 32 + j)) = 0"
    by (simp add: dirty_scratch_def)
  note inst = zero_block_keeps_magnitude_words [OF g i z]
  from inst have 1: "convert_fp32_to_mxfp4_tile 0 100 32 dirty_scratch (100 + 0 * 5) = 0"
    by (rule conjunct1)
  from inst have "\<forall>k\<in>{1..4}. convert_fp32_to_mxfp4_tile 0 100 32 dirty_scratch (100 + 0 * 5 + k)
      = dirty_scratch (100 + 0 * 5 + k)"
    by (rule conjunct2)
  then have 2: "convert_fp32_to_mxfp4_tile 0 100 32 dirty_scratch (100 + 0 * 5 + 1)
      = dirty_scratch (100 + 0 * 5 + 1)"
    by (rule bspec) simp
  have 3: "dirty_scratch (100 + 0 * 5 + 1) = 0xDEADBEEF"
    by (simp add: dirty_scratch_def)
  from 1 2 3 show ?thesis by simp
qed

text \<open>
  C10. The scratch buffer of \<open>tile_elements / 6\<close> words holds the \<open>(tile_elements / 32) * 5\<close>
  words of the compact tile: every index the encoder stores through (\<open>i * 5\<close> and
  \<open>byte_idx\<close>) is below the length of the array, and no word outside the array changes.
  This holds for every element count, so for the positive multiples of 32.
\<close>

theorem scratch_buffer_bounds:
  "5 * unat (tile_elements div 32) \<le> unat (mxfp4_buffer_words tile_elements) \<and>
   (\<forall>i<unat (tile_elements div 32). \<forall>j<32.
      i * 5 < unat (mxfp4_buffer_words tile_elements) \<and>
      byte_idx i j < unat (mxfp4_buffer_words tile_elements)) \<and>
   (\<forall>a. a \<notin> {buf ..< buf + unat (mxfp4_buffer_words tile_elements)} \<longrightarrow>
      convert_fp32_to_mxfp4_tile src buf tile_elements m a = m a)"
proof -
  let ?K = "unat (tile_elements div 32)" and ?L = "unat (mxfp4_buffer_words tile_elements)"
  have len: "5 * ?K \<le> ?L"
    by (simp add: mxfp4_buffer_words_def unat_div)
  have idx: "i * 5 < ?L \<and> byte_idx i j < ?L" if "i < ?K" "j < 32" for i j
    using that len byte_idx_bounds [OF that(2), of i] by arith
  have "convert_fp32_to_mxfp4_tile src buf tile_elements m a = m a"
    if "a \<notin> {buf ..< buf + ?L}" for a
  proof (rule encode_tile_frame, intro allI impI)
    fix i assume "i < ?K"
    then show "a \<notin> compact_block buf i"
      using that len by (auto simp add: compact_block_def)
  qed
  with len idx show ?thesis by blast
qed

text \<open>C10, for a tile of 1024 elements: 160 words are written and the array has 170.\<close>

theorem scratch_buffer_bounds_witness:
  "5 * unat ((1024 :: u32) div 32) \<le> unat (mxfp4_buffer_words 1024) \<and>
   31 * 5 < unat (mxfp4_buffer_words 1024) \<and>
   byte_idx 31 31 < unat (mxfp4_buffer_words 1024) \<and>
   convert_fp32_to_mxfp4_tile 0 2000 1024 dirty_scratch 2170 = dirty_scratch 2170"
proof -
  note inst = scratch_buffer_bounds [where tile_elements = 1024 and buf = 2000 and src = 0
      and m = dirty_scratch]
  have len: "unat (mxfp4_buffer_words 1024) = 170" "unat ((1024 :: u32) div 32) = 32"
    by (simp_all add: mxfp4_buffer_words_def)
  from inst have 1: "5 * unat ((1024 :: u32) div 32) \<le> unat (mxfp4_buffer_words 1024)"
    by blast
  from inst have "\<forall>i<unat ((1024 :: u32) div 32). \<forall>j<32.
      i * 5 < unat (mxfp4_buffer_words 1024) \<and> byte_idx i j < unat (mxfp4_buffer_words 1024)"
    by blast
  then have 2: "31 * 5 < unat (mxfp4_buffer_words 1024) \<and> byte_idx 31 31 < unat (mxfp4_buffer_words 1024)"
    by (simp add: len)
  from inst have "\<forall>a. a \<notin> {2000 ..< 2000 + unat (mxfp4_buffer_words 1024)} \<longrightarrow>
      convert_fp32_to_mxfp4_tile 0 2000 1024 dirty_scratch a = dirty_scratch a"
    by blast
  then have 3: "convert_fp32_to_mxfp4_tile 0 2000 1024 dirty_scratch 2170 = dirty_scratch 2170"
    by (simp add: len)
  from 1 2 3 show ?thesis by simp
qed

section \<open>Claims about the pipelines\<close>

text \<open>
  C2. A tile flagged compact is decoded only after its transfer has completed, a barrier
  standing between the issue and the decoding. In the reader the conversion is called
  right after \<open>noc_async_read_tile\<close>, and the only barrier comes after all tiles of the
  block: on one block of 2 by 2 tiles each conversion runs on a tile whose transfer is
  still pending (\<open>reader_decodes_pending_tile\<close> shows the same for every such input).
  The last line shows the order that would do.
\<close>

theorem decode_before_barrier:
  "reader_kernel_main example_reader_args example_reader_env =
     [CbReserveBack 0 4, CbReserveBack 1 4,
      NocAsyncReadTile In0 0 0x1000, ConvertMxfp4ToFp32 0x1000 0x1000 1024,
      NocAsyncReadTile In0 1 0x2000, ConvertMxfp4ToFp32 0x2000 0x2000 1024,
      NocAsyncReadTile In0 2 0x3000, ConvertMxfp4ToFp32 0x3000 0x3000 1024,
      NocAsyncReadTile In0 3 0x4000, ConvertMxfp4ToFp32 0x4000 0x4000 1024,
      NocAsyncReadTile In1 0 0x5000, NocAsyncReadTile In1 1 0x6000,
      NocAsyncReadTile In1 2 0x7000, NocAsyncReadTile In1 3 0x8000,
      NocAsyncReadBarrier, CbPushBack 0 4, CbPushBack 1 4] \<and>
   \<not> decodes_after_completion [] (reader_kernel_main example_reader_args example_reader_env) \<and>
   decodes_after_completion []
     [NocAsyncReadTile In0 0 0x1000, NocAsyncReadBarrier, ConvertMxfp4ToFp32 0x1000 0x1000 1024]"
  by code_simp

text \<open>
  C3. With the output flagged compact the tile is encoded and the transfer carries the
  encoded data, \<open>(tile_elements / 32) * 5\<close> words long. On a tile of 32 elements the
  length is right (20 bytes), but the transfer is given \<open>l1_read_addr\<close>, where the tile
  still is as it was: it carries the first five full-precision words, and the encoded
  block stays in \<open>mxfp4_buffer\<close>, which no call receives.
\<close>

theorem write_carries_unencoded_tile:
  "snd (writer_kernel_main example_writer_args example_writer_env ones_tile) =
     [CbWaitFront 16 1, NocAsyncWrite 0 0x30000 0 20, NocAsyncWriteBarrier, CbPopFront 16 1] \<and>
   payload (fst (writer_kernel_main example_writer_args example_writer_env ones_tile)) 0 20 =
     [0x3F880000, 0x3F880000, 0x3F880000, 0x3F880000, 0x3F880000] \<and>
   map (fst (writer_kernel_main example_writer_args example_writer_env ones_tile)) [1000..<1005] =
     [0x7F000000, 0x11111111, 0x11111111, 0x11111111, 0x11111111]"
proof -
  have "payload (convert_fp32_to_mxfp4_tile 0 1000 32 ones_tile) 0 20 =
      [0x3F880000, 0x3F880000, 0x3F880000, 0x3F880000, 0x3F880000]"
    by (simp add: payload_def word_index_def upt_conv_Cons writer_example_tile_kept ones_tile_def)
  then show ?thesis
    by (simp only: writer_example_run fst_conv snd_conv writer_example_buffer simp_thms)
qed

section \<open>Claims about the traversal\<close>

text \<open>
  C7. The tile indices of the transfers each kernel issues, in order, for every choice of
  the arguments. For a read operand: for each batch, for each block, for each row \<open>h\<close>,
  for each column \<open>w\<close>, the index \<open>block_start + h * stride_h + w * stride_w\<close>, where
  \<open>block_start\<close> is the operand's start index of the batch advanced by the block stride
  once per block before. For the output the blocks are the subblocks, whose start moves by
  the subblock stride along a row of subblocks and by the other subblock stride from one
  row of subblocks to the next. Every coordinate appears once, at its place in row-major,
  batch-major order. The arithmetic is that of \<open>uint32_t\<close>.
\<close>

theorem traversal_order:
  "read_tile_ids In0 (reader_kernel_main args env) =
     concat (map (\<lambda>b.
       concat (map (\<lambda>blk.
         concat (map (\<lambda>h.
           map (\<lambda>w. in0_tensor_start_tile_id args + of_nat b * MtKt args
                      + of_nat blk * in0_tensor_next_block_stride args
                      + of_nat h * in0_tensor_stride_h args + of_nat w * in0_tensor_stride_w args)
               [0..<unat (in0_block_w args)])
           [0..<unat (in0_block_h args)]))
         [0..<unat (num_blocks args)]))
       [0..<unat (batch args)]) \<and>
   read_tile_ids In1 (reader_kernel_main args env) =
     concat (map (\<lambda>b.
       concat (map (\<lambda>blk.
         concat (map (\<lambda>h.
           map (\<lambda>w. in1_tensor_start_tile_id args
                      + of_nat b * (if bcast_B args = 0 then KtNt args else 0)
                      + of_nat blk * in1_tensor_next_block_stride args
                      + of_nat h * in1_tensor_stride_h args + of_nat w * in1_tensor_stride_w args)
               [0..<unat (in1_block_w args)])
           [0..<unat (in1_block_h args)]))
         [0..<unat (num_blocks args)]))
       [0..<unat (batch args)]) \<and>
   write_tile_ids (snd (writer_kernel_main wargs wenv m)) =
     concat (map (\<lambda>b.
       concat (map (\<lambda>sbh.
         concat (map (\<lambda>sbw.
           concat (map (\<lambda>h.
             map (\<lambda>w. out_tensor_start_tile_id wargs + of_nat b * MtNt wargs
                        + of_nat sbh * out_tensor_next_subblock_stride_h wargs
                        + of_nat sbw * out_tensor_next_subblock_stride_w wargs
                        + of_nat h * out_tensor_stride_h wargs + of_nat w * out_tensor_stride_w wargs)
                 [0..<unat (out_subblock_w wargs)])
             [0..<unat (out_subblock_h wargs)]))
           [0..<unat (out_num_subblocks_w wargs)]))
         [0..<unat (out_num_subblocks_h wargs)]))
       [0..<unat (out_batch wargs)])"
  by (simp add: reader_kernel_main_def reader_batches_state in0_batch_ids_def in0_block_ids_def
      in1_batch_ids_def in1_block_ids_def in1_batch_stride_def
      writer_kernel_main_ids out_batch_ids_def out_sbh_ids_def out_subblock_ids_def
      block_tile_ids_def)

text \<open>C7, on one block of 2 by 2 tiles: row 0 column 0, row 0 column 1, row 1 column 0, row 1 column 1.\<close>

theorem traversal_order_witness:
  "read_tile_ids In0 (reader_kernel_main example_reader_args example_reader_env) = [0, 1, 2, 3] \<and>
   read_tile_ids In1 (reader_kernel_main example_reader_args example_reader_env) = [0, 1, 2, 3] \<and>
   write_tile_ids (snd (writer_kernel_main example_writer_args example_writer_env ones_tile)) = [0]"
proof -
  note t = traversal_order [where args = example_reader_args and env = example_reader_env
      and wargs = example_writer_args and wenv = example_writer_env and m = ones_tile]
  show ?thesis
    apply (subst t [THEN conjunct1])
    apply (subst t [THEN conjunct2, THEN conjunct1])
    apply (subst t [THEN conjunct2, THEN conjunct2])
    apply code_simp
    done
qed

text \<open>
  C8. After every batch the first operand's start index has advanced by \<open>MtKt\<close>; the second
  operand's has advanced by \<open>KtNt\<close> when \<open>bcast_B\<close> is 0 and is unchanged otherwise. So
  after \<open>n\<close> batches the first is \<open>n * MtKt\<close> further, and the second is \<open>n * KtNt\<close>
  further without broadcast and where it started with broadcast.
\<close>

theorem batch_start_advance:
  "fst (snd (reader_batch_step args env (pushed, in0_start, in1_start, tr))) = in0_start + MtKt args \<and>
   fst (snd (snd (reader_batch_step args env (pushed, in0_start, in1_start, tr)))) =
     (if bcast_B args = 0 then in1_start + KtNt args else in1_start) \<and>
   fst (snd (reader_batches args env n)) = in0_tensor_start_tile_id args + of_nat n * MtKt args \<and>
   fst (snd (snd (reader_batches args env n))) =
     (if bcast_B args = 0 then in1_tensor_start_tile_id args + of_nat n * KtNt args
      else in1_tensor_start_tile_id args)"
  by (simp add: reader_batch_step_state reader_batches_state in1_batch_stride_def)

text \<open>C8, after three batches with strides of 4, without and with broadcast.\<close>

theorem batch_start_advance_witness:
  "fst (snd (reader_batches example_reader_args example_reader_env 3)) = 12 \<and>
   fst (snd (snd (reader_batches example_reader_args example_reader_env 3))) = 12 \<and>
   fst (snd (snd (reader_batches (example_reader_args\<lparr>bcast_B := 1\<rparr>) example_reader_env 3))) = 0"
proof -
  note a = batch_start_advance [where args = example_reader_args and env = example_reader_env
      and n = 3, THEN conjunct2, THEN conjunct2]
  note b = batch_start_advance [where args = "example_reader_args\<lparr>bcast_B := 1\<rparr>"
      and env = example_reader_env and n = 3, THEN conjunct2, THEN conjunct2]
  show ?thesis
    apply (subst a [THEN conjunct1])
    apply (subst a [THEN conjunct2])
    apply (subst b [THEN conjunct2])
    apply (simp add: example_reader_args_def)
    done
qed

end
